theory Spec2Isabelle
  imports Main
begin

section \<open>peek.c: data model\<close>

text \<open>
  The six configuration flags of peek.c (\<^verbatim>\<open>cfg_show_dotfiles\<close> ... \<^verbatim>\<open>cfg_print_hex\<close>), set once
  by the option loop of \<^verbatim>\<open>main\<close> and read-only afterwards.
\<close>

record config =
  cfg_show_dotfiles :: bool
  cfg_color :: bool
  cfg_clear_trace :: bool
  cfg_show_dir :: bool
  cfg_indicate :: bool
  cfg_print_hex :: bool

text \<open>
  \<^verbatim>\<open>struct dirent\<close>, as far as the program reads it. \<open>d_name\<close> is the C string held in the
  \<^verbatim>\<open>char d_name[256]\<close> field (the bytes before the terminating NUL), \<open>d_type\<close> the
  \<^verbatim>\<open>unsigned char\<close> type code.
\<close>

record dirent =
  d_name :: string
  d_type :: nat

text \<open>The part of \<^verbatim>\<open>struct termios\<close> that \<^verbatim>\<open>main\<close> changes.\<close>

record termios =
  c_echo :: bool
  c_icanon :: bool
  c_vmin :: nat
  c_vtime :: nat

text \<open>
  The global variables of peek.c, together with the three standard streams and the
  attributes of the terminal device. \<open>stdin\<close> is the sequence of values that successive
  calls of \<^verbatim>\<open>getchar\<close> return: a byte \<open>0..255\<close>, or \<open>-1\<close> (\<^verbatim>\<open>EOF\<close>) when the raw-mode
  terminal has no byte ready. \<open>d_current_name\<close> is \<open>None\<close> while the pointer is \<^verbatim>\<open>NULL\<close>.
\<close>

record state =
  d_current_name :: "string option"
  d_current_len :: int
  d_length :: int
  selected :: int
  selected_name :: string
  last_overflow_count :: int
  tcattr_old :: termios
  tcattr_raw :: termios
  tty_attr :: termios
  atexit_restore :: bool
  stdin :: "int list"
  stdout :: string
  stderr :: string

text \<open>
  What the program sees of the operating system during one call: the directory listing
  that \<^verbatim>\<open>scandir\<close> reads (in \<^verbatim>\<open>readdir\<close> order, before filtering and sorting; \<open>None\<close> when it
  fails), whether \<^verbatim>\<open>opendir\<close> succeeds, the buffer contents \<^verbatim>\<open>realpath\<close> leaves behind, the
  result of \<^verbatim>\<open>access(path, X_OK) == 0\<close>, the collation \<^verbatim>\<open>strcoll(a, b) <= 0\<close> of the locale
  chosen by \<^verbatim>\<open>setlocale(LC_ALL, "")\<close>, the column count of \<^verbatim>\<open>TIOCGWINSZ\<close>, whether
  \<^verbatim>\<open>malloc\<close> returns \<^verbatim>\<open>NULL\<close>, in which process \<^verbatim>\<open>fork\<close> returns (or that it fails), and
  whether \<^verbatim>\<open>execv\<close> of a program succeeds.
\<close>

datatype fork_result = Fork_parent | Fork_child | Fork_failed

record env =
  e_scandir :: "string \<Rightarrow> dirent list option"
  e_opendir :: "string \<Rightarrow> bool"
  e_realpath :: "string \<Rightarrow> string"
  e_access_x :: "string \<Rightarrow> bool"
  e_strcoll_le :: "string \<Rightarrow> string \<Rightarrow> bool"
  e_ws_col :: nat
  e_malloc_null :: bool
  e_fork :: fork_result
  e_execv_ok :: "string \<Rightarrow> bool"

text \<open>
  How a call can fail to return: \<^verbatim>\<open>exit(code)\<close>, a fatal signal (division by zero, a
  \<^verbatim>\<open>NULL\<close> dereference), \<^verbatim>\<open>getchar\<close> never delivering the byte the code waits for,
  \<^verbatim>\<open>execv\<close> replacing the process image, or a step whose behaviour C leaves undefined
  (in practice an abort inside \<^verbatim>\<open>free\<close>), after which nothing is said about the run.
\<close>

datatype stop = Exit int | Killed | Starved | Exec string "string list" | Undefined

type_synonym 'a result = "(stop \<times> state) + 'a"

section \<open>Constants\<close>

definition ESC :: char where
  "ESC = CHR 0x1B"

definition COLOR_RESET :: string where
  "COLOR_RESET = ESC # ''[m''"

definition COLOR_BOLD :: string where
  "COLOR_BOLD = ESC # ''[1m''"

definition COLOR_INVERT :: string where
  "COLOR_INVERT = ESC # ''[7m''"

definition MSG_CANT_SCAN :: string where
  "MSG_CANT_SCAN = ''/could not scan/''"

definition MSG_EMPTY :: string where
  "MSG_EMPTY = ''/empty/''"

definition ENTRY_DELIM :: string where
  "ENTRY_DELIM = ''  ''"

definition SELECTED_MIN :: int where
  "SELECTED_MIN = 0"

definition SELECTED_MAX :: "state \<Rightarrow> int" where
  "SELECTED_MAX s = d_length s - 1"

text \<open>\<^verbatim>\<open>PATH_MAX\<close> comes from the system headers; on Linux it is 4096.\<close>

definition PATH_MAX :: int where
  "PATH_MAX = 4096"

text \<open>A byte as the \<^verbatim>\<open>int\<close> that \<^verbatim>\<open>getchar\<close> returns for it.\<close>

definition ord :: "char \<Rightarrow> int" where
  "ord c = int (of_char c)"

text \<open>
  The conversion of \<^verbatim>\<open>char c = getchar()\<close>: the \<^verbatim>\<open>int\<close> is reduced to a signed 8-bit value,
  so \<^verbatim>\<open>EOF\<close> and the byte \<open>0xFF\<close> both become \<open>-1\<close>.
\<close>

definition to_char :: "int \<Rightarrow> int" where
  "to_char g = (g + 128) mod 256 - 128"

section \<open>get_cursor_pos\<close>

text \<open>
  The four places of the scanning loop where \<^verbatim>\<open>getchar\<close> is called: the \<^verbatim>\<open>while\<close> at the
  label \<^verbatim>\<open>scan_for_esc\<close>, the test for \<^verbatim>\<open>'['\<close>, the row loop and the column loop.
\<close>

datatype scan_at = Scan_for_esc | Scan_for_bracket | Scan_row | Scan_col

text \<open>
  The scan of \<^verbatim>\<open>get_cursor_pos\<close> from one of these places, with the current values of
  \<^verbatim>\<open>*row\<close> and \<^verbatim>\<open>*col\<close>, over the values \<^verbatim>\<open>getchar\<close> will return. Every \<^verbatim>\<open>goto scan_for_esc\<close>
  continues at \<open>Scan_for_esc\<close> with \<^verbatim>\<open>*row\<close> and \<^verbatim>\<open>*col\<close> as they are: the two assignments
  \<^verbatim>\<open>*row = 0; *col = 0\<close> stand before the label. The result is \<open>None\<close> when the input ends
  before the final \<^verbatim>\<open>R\<close>: the C loop then waits for ever. The accumulators are unbounded
  integers; the overflow of \<^verbatim>\<open>*row * 10\<close> beyond 32 bits is undefined in C and not modelled.
\<close>

fun scan :: "scan_at \<Rightarrow> int \<Rightarrow> int \<Rightarrow> int list \<Rightarrow> (int \<times> int \<times> int list) option" where
  "scan at row col [] = None"
| "scan Scan_for_esc row col (g # inp) =
     (if g \<noteq> 0x1B then scan Scan_for_esc row col inp
      else scan Scan_for_bracket row col inp)"
| "scan Scan_for_bracket row col (g # inp) =
     (if g \<noteq> ord (CHR ''['') then scan Scan_for_esc row col inp
      else scan Scan_row row col inp)"
| "scan Scan_row row col (g # inp) =
     (let c = to_char g in
      if c = ord (CHR '';'') then scan Scan_col row col inp
      else if c < ord (CHR ''0'') \<or> c > ord (CHR ''9'') then scan Scan_for_esc row col inp
      else scan Scan_row (row * 10 + (c - ord (CHR ''0''))) col inp)"
| "scan Scan_col row col (g # inp) =
     (let c = to_char g in
      if c = ord (CHR ''R'') then Some (row, col, inp)
      else if c < ord (CHR ''0'') \<or> c > ord (CHR ''9'') then scan Scan_for_esc row col inp
      else scan Scan_col row (col * 10 + (c - ord (CHR ''0''))) inp)"

text \<open>
  \<^verbatim>\<open>get_cursor_pos\<close>: print the request \<^verbatim>\<open>ESC [ 6 n\<close>, then scan. The attempt to empty the
  input before (\<^verbatim>\<open>ioctl(FIONREAD)\<close>, \<^verbatim>\<open>read\<close> into \<^verbatim>\<open>NULL\<close>) works on the file descriptor and
  stores nothing; \<open>stdin\<close> is what \<^verbatim>\<open>getchar\<close> returns after it.
\<close>

definition get_cursor_pos :: "state \<Rightarrow> (int \<times> int \<times> state) result" where
  "get_cursor_pos s =
     (let s1 = s\<lparr>stdout := stdout s @ ESC # ''[6n''\<rparr> in
      case scan Scan_for_esc 0 0 (stdin s1) of
        None \<Rightarrow> Inl (Starved, s1\<lparr>stdin := []\<rparr>)
      | Some (row, col, rest) \<Rightarrow> Inr (row, col, s1\<lparr>stdin := rest\<rparr>))"

section \<open>Output, exit and terminal restoration\<close>

text \<open>\<^verbatim>\<open>printf\<close> and \<^verbatim>\<open>putchar\<close> on the standard output.\<close>

definition put :: "string \<Rightarrow> state \<Rightarrow> state" where
  "put str s = s\<lparr>stdout := stdout s @ str\<rparr>"

text \<open>The loop \<^verbatim>\<open>for (int l = 0; l <= last_overflow_count; ++l) putchar('\n')\<close>.\<close>

function put_newlines :: "int \<Rightarrow> int \<Rightarrow> state \<Rightarrow> state" where
  "put_newlines l n s = (if l \<le> n then put_newlines (l + 1) n (put [CHR 0x0A] s) else s)"
  by pat_completeness auto
termination
  by (relation "measure (\<lambda>(l, n, s). nat (n + 1 - l))") auto

declare put_newlines.simps [simp del]

definition restore_tcattr :: "config \<Rightarrow> state \<Rightarrow> state" where
  "restore_tcattr cfg s =
     (let s1 = put (ESC # ''[?25h'') s;
          s2 = (if cfg_clear_trace cfg then put (ESC # ''[u'' @ ESC # ''[0J'' @ ESC # ''[2K'') s1
                else put_newlines 0 (last_overflow_count s1) s1)
      in s2\<lparr>tty_attr := tcattr_old s2\<rparr>)"

text \<open>
  \<^verbatim>\<open>exit(code)\<close>, also reached by \<^verbatim>\<open>return code\<close> in \<^verbatim>\<open>main\<close>: the handler registered with
  \<^verbatim>\<open>atexit(restore_tcattr)\<close> runs when it has been registered.
\<close>

definition exit_with :: "config \<Rightarrow> state \<Rightarrow> int \<Rightarrow> stop \<times> state" where
  "exit_with cfg s code = (Exit code, if atexit_restore s then restore_tcattr cfg s else s)"

text \<open>
  The macro \<^verbatim>\<open>CHECKBAD(val, err, msg, ...)\<close> when \<^verbatim>\<open>val\<close> holds: a newline on the standard
  output, the formatted message on the standard error, \<^verbatim>\<open>exit(err)\<close>.
\<close>

definition CHECKBAD :: "config \<Rightarrow> state \<Rightarrow> int \<Rightarrow> string \<Rightarrow> stop \<times> state" where
  "CHECKBAD cfg s err msg = exit_with cfg ((put [CHR 0x0A] s)\<lparr>stderr := stderr s @ msg\<rparr>) err"

section \<open>append_to_cd and cd\<close>

text \<open>
  \<^verbatim>\<open>append_to_cd(NULL, suffix)\<close>; every call in peek.c passes \<^verbatim>\<open>NULL\<close> for \<^verbatim>\<open>to\<close>, which
  \<^verbatim>\<open>printf\<close> shows as \<^verbatim>\<open>(null)\<close>. The result is the freshly allocated string. \<^verbatim>\<open>memcpy\<close> takes
  \<open>d_current_len\<close> bytes of the current name.
\<close>

definition append_to_cd :: "env \<Rightarrow> config \<Rightarrow> state \<Rightarrow> string \<Rightarrow> string result" where
  "append_to_cd env cfg s suffix =
     (let suffix_len = int (length suffix);
          to_len = d_current_len s + suffix_len + 2
      in if to_len > PATH_MAX
         then Inl (CHECKBAD cfg s 1 (''(null)/'' @ suffix @ '' is too long of a path!''))
         else if e_malloc_null env
         then Inl (CHECKBAD cfg s 1 (''Out of memory!'' @ [CHR 0x00]))
         else (case d_current_name s of
                 None \<Rightarrow> Inl (Killed, s)
               | Some name \<Rightarrow> Inr (take (nat (d_current_len s)) name @ ''/'' @ suffix)))"

text \<open>
  \<^verbatim>\<open>cd\<close>. The value \<^verbatim>\<open>realpath\<close> returns is not looked at: whatever the call leaves in the
  buffer is the new current name. The first \<^verbatim>\<open>malloc\<close> is unchecked and taken to succeed.
\<close>

definition cd :: "env \<Rightarrow> config \<Rightarrow> state \<Rightarrow> string \<Rightarrow> state result" where
  "cd env cfg s to =
     (let resolved =
            (case d_current_name s of
               None \<Rightarrow> Inr (e_realpath env to)
             | Some name \<Rightarrow>
                 if take 1 to = ''/'' then Inr (e_realpath env to)
                 else (case append_to_cd env cfg s to of
                         Inl x \<Rightarrow> Inl x
                       | Inr new \<Rightarrow> Inr (e_realpath env new)))
      in case resolved of
           Inl x \<Rightarrow> Inl x
         | Inr name' \<Rightarrow>
             Inr (s\<lparr>d_current_name := Some name',
                    d_current_len := int (length name'),
                    d_length := 0,
                    selected := SELECTED_MIN\<rparr>))"

section \<open>get_entry_type and display_filter\<close>

definition colors :: "string option list" where
  "colors =
     [None, Some (ESC # ''[33m''), Some (ESC # ''[33;1m''), None, Some (ESC # ''[34;1m''), None,
      Some (ESC # ''[33;1m''), None, None, None, Some (ESC # ''[36;1m''), None,
      Some (ESC # ''[35;1m'')]"

definition indicators :: "char list" where
  "indicators =
     [CHR 0x00, CHR ''|'', CHR 0x00, CHR 0x00, CHR ''/'', CHR 0x00, CHR 0x00, CHR 0x00, CHR 0x00,
      CHR 0x00, CHR ''@'', CHR 0x00, CHR ''='']"

definition DT_SOCK :: nat where
  "DT_SOCK = 12"

definition get_entry_type :: "env \<Rightarrow> config \<Rightarrow> state \<Rightarrow> dirent \<Rightarrow> (string option \<times> char) result" where
  "get_entry_type env cfg s ent =
     (if d_type ent > 0 \<and> d_type ent \<le> DT_SOCK
         \<and> (colors ! d_type ent \<noteq> None \<or> indicators ! d_type ent \<noteq> CHR 0x00)
      then Inr (colors ! d_type ent, indicators ! d_type ent)
      else (case append_to_cd env cfg s (d_name ent) of
              Inl x \<Rightarrow> Inl x
            | Inr ent_path \<Rightarrow>
                if e_access_x env ent_path then Inr (Some (ESC # ''[32;1m''), CHR ''*'')
                else Inr (None, CHR 0x00)))"

definition display_filter :: "config \<Rightarrow> dirent \<Rightarrow> bool" where
  "display_filter cfg ent =
     (case d_name ent of
        [] \<Rightarrow> True
      | c0 # rest \<Rightarrow>
          if c0 = CHR ''.'' then
            (if \<not> cfg_show_dotfiles cfg then False
             else if rest = [] then False
             else if rest = ''.'' then False
             else True)
          else True)"

section \<open>scandir\<close>

text \<open>\<^verbatim>\<open>alphasort\<close> compares two entries by \<^verbatim>\<open>strcoll\<close> of their names.\<close>

definition alphasort :: "env \<Rightarrow> dirent \<Rightarrow> dirent \<Rightarrow> bool" where
  "alphasort env a b = e_strcoll_le env (d_name a) (d_name b)"

text \<open>
  The sorting that \<^verbatim>\<open>scandir\<close> does with the comparison function, as an insertion sort; the
  names of one directory are pairwise different, so each sorting algorithm gives the same
  list for a collation that is a linear order.
\<close>

fun insert_sorted :: "('a \<Rightarrow> 'a \<Rightarrow> bool) \<Rightarrow> 'a \<Rightarrow> 'a list \<Rightarrow> 'a list" where
  "insert_sorted le x [] = [x]"
| "insert_sorted le x (y # ys) = (if le x y then x # y # ys else y # insert_sorted le x ys)"

fun sort_with :: "('a \<Rightarrow> 'a \<Rightarrow> bool) \<Rightarrow> 'a list \<Rightarrow> 'a list" where
  "sort_with le [] = []"
| "sort_with le (x # xs) = insert_sorted le x (sort_with le xs)"

text \<open>
  \<^verbatim>\<open>scandir(dir, &d_children, display_filter, alphasort)\<close>: \<open>None\<close> for the return value
  \<open>-1\<close>, otherwise the filtered and sorted entries.
\<close>

definition scandir :: "env \<Rightarrow> config \<Rightarrow> string \<Rightarrow> dirent list option" where
  "scandir env cfg dir =
     (case e_scandir env dir of
        None \<Rightarrow> None
      | Some ents \<Rightarrow> Some (sort_with (alphasort env) (filter (display_filter cfg) ents)))"

section \<open>display\<close>

text \<open>The conversions \<^verbatim>\<open>%d\<close> and \<^verbatim>\<open>%02X\<close> of \<^verbatim>\<open>printf\<close>.\<close>

definition digit_char :: "nat \<Rightarrow> char" where
  "digit_char n = ''0123456789ABCDEF'' ! n"

fun show_nat :: "nat \<Rightarrow> string" where
  "show_nat n = (if n < 10 then [digit_char n] else show_nat (n div 10) @ [digit_char (n mod 10)])"

declare show_nat.simps [simp del]

definition show_int :: "int \<Rightarrow> string" where
  "show_int i = (if i < 0 then CHR ''-'' # show_nat (nat (- i)) else show_nat (nat i))"

definition show_hex2 :: "char \<Rightarrow> string" where
  "show_hex2 c = [digit_char (of_char c div 16), digit_char (of_char c mod 16)]"

text \<open>The division of C on \<^verbatim>\<open>int\<close> rounds towards zero; the divisor is not zero here.\<close>

definition c_div :: "int \<Rightarrow> int \<Rightarrow> int" where
  "c_div a b = sgn a * sgn b * (\<bar>a\<bar> div \<bar>b\<bar>)"

text \<open>The block \<^verbatim>\<open>// Validate selection index\<close>.\<close>

definition validate_selection :: "state \<Rightarrow> state" where
  "validate_selection s =
     (if d_length s < 1 then s\<lparr>selected := 0\<rparr>
      else if selected s < SELECTED_MIN then s\<lparr>selected := SELECTED_MAX s\<rparr>
      else if selected s > SELECTED_MAX s then s\<lparr>selected := SELECTED_MIN\<rparr>
      else s)"

text \<open>
  The loop that prints the bytes of a name: a byte above the control characters and other
  than DEL is printed and counted, any other byte is printed as \<^verbatim>\<open>/XX/\<close> (four columns)
  under \<^verbatim>\<open>-x\<close> and dropped otherwise. The pair is the state and \<^verbatim>\<open>print_count\<close>.
\<close>

fun print_name :: "config \<Rightarrow> string \<Rightarrow> state \<times> int \<Rightarrow> state \<times> int" where
  "print_name cfg [] (s, print_count) = (s, print_count)"
| "print_name cfg (c # cs) (s, print_count) =
     (if (of_char c :: nat) > 0x1F \<and> c \<noteq> CHR 0x7F
      then print_name cfg cs (put [c] s, print_count + 1)
      else if cfg_print_hex cfg
      then print_name cfg cs (put (''/'' @ show_hex2 c @ ''/'') s, print_count + 4)
      else print_name cfg cs (s, print_count))"

text \<open>
  One pass of the body of \<^verbatim>\<open>for (int i = 0; i < d_length; ++i)\<close> for the entry \<open>d_child\<close> at
  index \<open>i\<close>; the triple is the state, \<^verbatim>\<open>print_count\<close> and \<^verbatim>\<open>newline_count\<close>. The comparison
  of the wrap test is made in \<^verbatim>\<open>size_t\<close>; all its operands are non-negative.
\<close>

definition display_entry ::
  "env \<Rightarrow> config \<Rightarrow> int \<Rightarrow> int \<Rightarrow> dirent \<Rightarrow> state \<times> int \<times> int \<Rightarrow> (state \<times> int \<times> int) result" where
  "display_entry env cfg ws_col i d_child acc =
     (case acc of (s, print_count, newline_count) \<Rightarrow>
      (case get_entry_type env cfg s d_child of
        Inl x \<Rightarrow> Inl x
      | Inr (d_child_color, d_child_indicator) \<Rightarrow>
          let d_child_len = int (length (d_name d_child));
              s1 = (if i = selected s
                    then put COLOR_INVERT (s\<lparr>selected_name := d_name d_child\<rparr>)
                    else s);
              s2 = (case d_child_color of
                      None \<Rightarrow> s1
                    | Some color \<Rightarrow> if cfg_color cfg then put color s1 else s1);
              wrap = (print_count + d_child_len + int (length ENTRY_DELIM) + 1 \<ge> ws_col);
              s3 = (if wrap then put [CHR 0x0A] s2 else s2);
              newline_count1 = (if wrap then newline_count + 1 else newline_count);
              print_count1 = (if wrap then 0 else print_count);
              (s4, print_count2) = print_name cfg (d_name d_child) (s3, print_count1);
              s5 = put COLOR_RESET s4;
              s6 = (if cfg_indicate cfg \<and> d_child_indicator \<noteq> CHR 0x00
                    then put [d_child_indicator] s5 else s5);
              print_count3 = (if cfg_indicate cfg \<and> d_child_indicator \<noteq> CHR 0x00
                              then print_count2 + 1 else print_count2);
              s7 = put ENTRY_DELIM s6;
              print_count4 = print_count3 + int (length ENTRY_DELIM)
          in Inr (s7, print_count4, newline_count1)))"

text \<open>The \<^verbatim>\<open>for\<close> loop over \<open>d_children\<close>, from index \<open>i\<close> on.\<close>

fun display_entries ::
  "env \<Rightarrow> config \<Rightarrow> int \<Rightarrow> int \<Rightarrow> dirent list \<Rightarrow> state \<times> int \<times> int \<Rightarrow> (state \<times> int \<times> int) result" where
  "display_entries env cfg ws_col i [] acc = Inr acc"
| "display_entries env cfg ws_col i (d_child # rest) acc =
     (case display_entry env cfg ws_col i d_child acc of
        Inl x \<Rightarrow> Inl x
      | Inr acc' \<Rightarrow> display_entries env cfg ws_col (i + 1) rest acc')"

text \<open>
  The first part of \<^verbatim>\<open>display\<close>: \<^verbatim>\<open>scandir\<close>, the emptying of \<open>selected_name\<close> when it
  returns \<open>-1\<close>, \<^verbatim>\<open>opendir\<close> with its \<^verbatim>\<open>CHECKBAD\<close>, and the validation of the selection. The
  result carries the entries to print (none when \<^verbatim>\<open>scandir\<close> failed: the loop does not run
  for \<open>d_length = -1\<close>).
\<close>

definition display_scan :: "env \<Rightarrow> config \<Rightarrow> state \<Rightarrow> string \<Rightarrow> (dirent list \<times> state) result" where
  "display_scan env cfg s dir =
     (let d_children = scandir env cfg dir;
          s1 = s\<lparr>d_length := (case d_children of None \<Rightarrow> - 1 | Some ents \<Rightarrow> int (length ents))\<rparr>;
          s2 = (if d_length s1 = - 1 then s1\<lparr>selected_name := []\<rparr> else s1)
      in if \<not> e_opendir env dir then Inl (CHECKBAD cfg s2 1 (''Could not open '' @ dir))
         else Inr (case d_children of None \<Rightarrow> [] | Some ents \<Rightarrow> ents, validate_selection s2))"

text \<open>
  The second part: erase the last display, ask for the cursor position, print the
  directory under \<^verbatim>\<open>-d\<close>, then the marker for a directory that could not be scanned or is
  empty. \<^verbatim>\<open>printf\<close> returns the number of bytes written, escape sequences included. The
  result is \<open>col_before\<close>, the state and \<^verbatim>\<open>print_count\<close>.
\<close>

definition display_head :: "config \<Rightarrow> state \<Rightarrow> string \<Rightarrow> (int \<times> state \<times> int) result" where
  "display_head cfg s dir =
     (case get_cursor_pos (put (ESC # ''[u'' @ ESC # ''[0J'' @ ESC # ''[2K'') s) of
        Inl x \<Rightarrow> Inl x
      | Inr (row_before, col_before, s1) \<Rightarrow>
          let header = COLOR_BOLD @ COLOR_INVERT @ dir @ COLOR_RESET @ '': '';
              s2 = (if cfg_show_dir cfg then put header s1 else s1);
              print_count = (if cfg_show_dir cfg then int (length header) else 0);
              s3 = put COLOR_RESET s2;
              marker = (if d_length s3 < 0 then MSG_CANT_SCAN @ COLOR_RESET @ '' ''
                        else if d_length s3 = 0 then MSG_EMPTY @ COLOR_RESET @ '' ''
                        else [])
          in Inr (col_before, put marker s3, print_count + int (length marker)))"

text \<open>
  The last part: the second cursor query and the overflow count. A terminal reporting
  zero columns makes the division trap.
\<close>

definition display_tail :: "int \<Rightarrow> int \<Rightarrow> state \<times> int \<times> int \<Rightarrow> state result" where
  "display_tail ws_col col_before acc =
     (case acc of (s, print_count, newline_count) \<Rightarrow>
      (case get_cursor_pos s of
        Inl x \<Rightarrow> Inl x
      | Inr (row_after, col_after, s1) \<Rightarrow>
          if ws_col = 0 then Inl (Killed, s1)
          else
            let print_count1 = print_count + newline_count * ws_col;
                s2 = s1\<lparr>last_overflow_count := c_div print_count1 ws_col\<rparr>
            in Inr (if last_overflow_count s2 \<noteq> 0
                    then put (ESC # ''['' @ show_int (row_after - last_overflow_count s2) @ '';''
                              @ show_int col_before @ ''f'' @ ESC # ''[s'') s2
                    else s2)))"

text \<open>
  Line 306, \<^verbatim>\<open>if (d_children) free(d_children)\<close>, after the loop. \<^verbatim>\<open>scandir\<close> stores the
  list through \<^verbatim>\<open>&d_children\<close> only when it does not return \<open>-1\<close>; after a failure the
  automatic variable has never been assigned, and testing and freeing it is undefined. At
  this point \<open>d_length\<close> still holds what \<^verbatim>\<open>scandir\<close> returned. After a success the call
  releases the list and changes nothing that the program looks at.
\<close>

definition free_d_children :: "state \<times> int \<times> int \<Rightarrow> (state \<times> int \<times> int) result" where
  "free_d_children acc =
     (case acc of (s, print_count, newline_count) \<Rightarrow>
      if d_length s = - 1 then Inl (Undefined, s) else Inr acc)"

definition display :: "env \<Rightarrow> config \<Rightarrow> state \<Rightarrow> state result" where
  "display env cfg s =
     (case d_current_name s of
        None \<Rightarrow> Inl (Killed, s)
      | Some dir \<Rightarrow>
          (let ws_col = int (e_ws_col env) in
           case display_scan env cfg s dir of
             Inl x \<Rightarrow> Inl x
           | Inr (d_children, s1) \<Rightarrow>
               (case display_head cfg s1 dir of
                  Inl x \<Rightarrow> Inl x
                | Inr (col_before, s2, print_count) \<Rightarrow>
                    (case display_entries env cfg ws_col 0 d_children (s2, print_count, 0) of
                       Inl x \<Rightarrow> Inl x
                     | Inr acc \<Rightarrow>
                         (case free_d_children acc of
                            Inl x \<Rightarrow> Inl x
                          | Inr acc1 \<Rightarrow> display_tail ws_col col_before acc1)))))"

section \<open>open_selection and the key loop of main\<close>

text \<open>
  \<^verbatim>\<open>open_selection\<close>; \<open>opener = None\<close> is the \<^verbatim>\<open>NULL\<close> opener of the execute key. The only
  path that returns is the parent after \<^verbatim>\<open>fork\<close>, with 0.
\<close>

definition open_selection :: "env \<Rightarrow> config \<Rightarrow> state \<Rightarrow> string option \<Rightarrow> bool \<Rightarrow> int result" where
  "open_selection env cfg s opener do_fork =
     (case append_to_cd env cfg s (selected_name s) of
        Inl x \<Rightarrow> Inl x
      | Inr selected_path \<Rightarrow>
          let opener1 = (case opener of None \<Rightarrow> selected_path | Some prog \<Rightarrow> prog);
              argv = (case opener of None \<Rightarrow> [selected_path] | Some prog \<Rightarrow> [prog, selected_path])
          in if do_fork then
               (case e_fork env of
                  Fork_parent \<Rightarrow> Inr 0
                | Fork_child \<Rightarrow>
                    if e_execv_ok env opener1 then Inl (Exec opener1 argv, s)
                    else Inl (CHECKBAD cfg s 1 (opener1 @ '' failed to execute''))
                | Fork_failed \<Rightarrow>
                    Inl (CHECKBAD cfg s 1 (''Could not start process for '' @ opener1)))
             else
               (let s1 = restore_tcattr cfg s;
                    s2 = (if cfg_clear_trace cfg then put [CHR 0x0A] s1 else s1)
                in if e_execv_ok env opener1 then Inl (Exec opener1 argv, s2)
                   else Inl (CHECKBAD cfg s2 1 (opener1 @ '' failed to execute''))))"

definition OPEN_IN_PROCESS :: bool where
  "OPEN_IN_PROCESS = False"

definition OPEN_WITH_FORK :: bool where
  "OPEN_WITH_FORK = True"

text \<open>\<^verbatim>\<open>return open_selection(...)\<close> in \<^verbatim>\<open>main\<close>.\<close>

definition return_open :: "config \<Rightarrow> state \<Rightarrow> int result \<Rightarrow> state result" where
  "return_open cfg s r = (case r of Inl x \<Rightarrow> Inl x | Inr code \<Rightarrow> Inl (exit_with cfg s code))"

text \<open>
  The inner \<^verbatim>\<open>switch\<close> on the third byte of an arrow key sequence; a byte that is none of
  \<^verbatim>\<open>A B C D\<close> matches no case.
\<close>

definition arrow_key :: "env \<Rightarrow> config \<Rightarrow> state \<Rightarrow> int \<Rightarrow> state result" where
  "arrow_key env cfg s g =
     (if g = ord (CHR ''A'') then cd env cfg s ''..''
      else if g = ord (CHR ''B'') then cd env cfg s (selected_name s)
      else if g = ord (CHR ''D'') then Inr (s\<lparr>selected := selected s - 1\<rparr>)
      else if g = ord (CHR ''C'') then Inr (s\<lparr>selected := selected s + 1\<rparr>)
      else Inr s)"

text \<open>
  The case \<^verbatim>\<open>0x1B\<close> of the outer \<^verbatim>\<open>switch\<close>: the next value decides between quitting and an
  arrow key, whose third value goes to the inner \<^verbatim>\<open>switch\<close>. \<open>stdin\<close> holds the values that
  follow the escape.
\<close>

definition escape_key :: "env \<Rightarrow> config \<Rightarrow> state \<Rightarrow> state result" where
  "escape_key env cfg s =
     (case stdin s of
        [] \<Rightarrow> Inl (Starved, s)
      | g2 # inp2 \<Rightarrow>
          if g2 \<noteq> ord (CHR ''['') then Inl (exit_with cfg (s\<lparr>stdin := inp2\<rparr>) 0)
          else (case inp2 of
                  [] \<Rightarrow> Inl (Starved, s\<lparr>stdin := []\<rparr>)
                | g3 # inp3 \<Rightarrow> arrow_key env cfg (s\<lparr>stdin := inp3\<rparr>) g3))"

text \<open>
  The outer \<^verbatim>\<open>switch\<close> on the value \<open>g\<close> just read, in the state after that read. \<open>None\<close> is
  the \<^verbatim>\<open>default\<close> case; \<open>Some (Inr s)\<close> is a \<^verbatim>\<open>break\<close>, which leads to \<^verbatim>\<open>display(); goto redo\<close>.
\<close>

definition key_switch :: "env \<Rightarrow> config \<Rightarrow> state \<Rightarrow> int \<Rightarrow> state result option" where
  "key_switch env cfg s g =
     (if g = ord (CHR ''E'') \<or> g = ord (CHR ''e'')
      then Some (return_open cfg s (open_selection env cfg s (Some ''/usr/bin/vim'') OPEN_IN_PROCESS))
      else if g = ord (CHR ''O'') \<or> g = ord (CHR ''o'')
      then Some (return_open cfg s (open_selection env cfg s (Some ''/usr/bin/xdg-open'') OPEN_WITH_FORK))
      else if g = ord (CHR ''X'') \<or> g = ord (CHR ''x'')
      then Some (return_open cfg s (open_selection env cfg s None OPEN_IN_PROCESS))
      else if g = ord (CHR ''K'') \<or> g = ord (CHR ''k'') then Some (cd env cfg s ''..'')
      else if g = ord (CHR ''J'') \<or> g = ord (CHR ''j'') \<or> g = 0x0A
      then Some (cd env cfg s (selected_name s))
      else if g = ord (CHR ''H'') \<or> g = ord (CHR ''h'') then Some (Inr (s\<lparr>selected := selected s - 1\<rparr>))
      else if g = ord (CHR ''L'') \<or> g = ord (CHR ''l'') then Some (Inr (s\<lparr>selected := selected s + 1\<rparr>))
      else if g = ord (CHR ''Q'') \<or> g = ord (CHR ''q'') then Some (Inl (exit_with cfg s 0))
      else if g = 0x1B then Some (escape_key env cfg s)
      else None)"

text \<open>
  The label \<^verbatim>\<open>redo\<close>, over the values \<^verbatim>\<open>getchar\<close> still has to return: read one, run the
  \<^verbatim>\<open>switch\<close>, and in the \<^verbatim>\<open>default\<close> case read the next.
\<close>

fun redo :: "env \<Rightarrow> config \<Rightarrow> state \<Rightarrow> int list \<Rightarrow> state result" where
  "redo env cfg s [] = Inl (Starved, s\<lparr>stdin := []\<rparr>)"
| "redo env cfg s (g # inp) =
     (case key_switch env cfg (s\<lparr>stdin := inp\<rparr>) g of
        None \<Rightarrow> redo env cfg s inp
      | Some r \<Rightarrow> r)"

text \<open>One round of the loop of \<^verbatim>\<open>main\<close>: from \<^verbatim>\<open>redo\<close> to the next \<^verbatim>\<open>goto redo\<close>.\<close>

definition main_round :: "env \<Rightarrow> config \<Rightarrow> state \<Rightarrow> state result" where
  "main_round env cfg s =
     (case redo env cfg s (stdin s) of
        Inl x \<Rightarrow> Inl x
      | Inr s1 \<Rightarrow> display env cfg s1)"

text \<open>
  The start of raw mode in \<^verbatim>\<open>main\<close>: \<^verbatim>\<open>tcgetattr\<close> into \<open>tcattr_old\<close>, the registration of
  \<^verbatim>\<open>restore_tcattr\<close> with \<^verbatim>\<open>atexit\<close>, and \<^verbatim>\<open>tcsetattr\<close> with the raw copy.
\<close>

definition enter_raw_mode :: "state \<Rightarrow> state" where
  "enter_raw_mode s =
     (let s1 = s\<lparr>tcattr_old := tty_attr s, atexit_restore := True\<rparr>;
          s2 = s1\<lparr>tcattr_raw := (tcattr_old s1)\<lparr>c_echo := False, c_icanon := False,
                                                  c_vmin := 0, c_vtime := 0\<rparr>\<rparr>
      in s2\<lparr>tty_attr := tcattr_raw s2\<rparr>)"

section \<open>What one pass of the entry loop writes\<close>

text \<open>The bytes the name loop writes for a name.\<close>

fun name_text :: "config \<Rightarrow> string \<Rightarrow> string" where
  "name_text cfg [] = []"
| "name_text cfg (c # cs) =
     (if (of_char c :: nat) > 0x1F \<and> c \<noteq> CHR 0x7F then c # name_text cfg cs
      else if cfg_print_hex cfg then ''/'' @ show_hex2 c @ ''/'' @ name_text cfg cs
      else name_text cfg cs)"

text \<open>
  The wrap test of the loop as a predicate of the running column count and the entry: one
  column is kept for the indicator whatever \<^verbatim>\<open>-F\<close> says, and the line is broken as soon as
  the sum reaches the column count.
\<close>

definition line_break_before :: "int \<Rightarrow> int \<Rightarrow> dirent \<Rightarrow> bool" where
  "line_break_before ws_col print_count e =
     (print_count + int (length (d_name e)) + int (length ENTRY_DELIM) + 1 \<ge> ws_col)"

text \<open>The columns by which one entry advances the running count.\<close>

definition entry_width :: "config \<Rightarrow> char \<Rightarrow> dirent \<Rightarrow> int" where
  "entry_width cfg ind e =
     int (length (name_text cfg (d_name e)))
       + (if cfg_indicate cfg \<and> ind \<noteq> CHR 0x00 then 1 else 0)
       + int (length ENTRY_DELIM)"

text \<open>
  The bytes written for one entry: inverse video when selected, the colour, the line
  break when \<open>brk\<close>, the name, the reset, the indicator, the delimiter.
\<close>

definition entry_text :: "config \<Rightarrow> bool \<Rightarrow> bool \<Rightarrow> string option \<Rightarrow> char \<Rightarrow> dirent \<Rightarrow> string" where
  "entry_text cfg sel brk color ind e =
     (if sel then COLOR_INVERT else []) @
     (case color of None \<Rightarrow> [] | Some c \<Rightarrow> if cfg_color cfg then c else []) @
     (if brk then [CHR 0x0A] else []) @
     name_text cfg (d_name e) @ COLOR_RESET @
     (if cfg_indicate cfg \<and> ind \<noteq> CHR 0x00 then [ind] else []) @ ENTRY_DELIM"

text \<open>The colour and indicator \<^verbatim>\<open>get_entry_type\<close> gives when it returns.\<close>

definition the_type :: "env \<Rightarrow> config \<Rightarrow> state \<Rightarrow> dirent \<Rightarrow> string option \<times> char" where
  "the_type env cfg s e =
     (case get_entry_type env cfg s e of Inl x \<Rightarrow> (None, CHR 0x00) | Inr t \<Rightarrow> t)"

text \<open>
  Column accounting for a list of entries: where the lines break, given the column count,
  the running count at the start and the indicator of each entry.
\<close>

fun break_points :: "config \<Rightarrow> int \<Rightarrow> (dirent \<Rightarrow> string option \<times> char) \<Rightarrow> int \<Rightarrow> dirent list \<Rightarrow> bool list" where
  "break_points cfg ws_col ty pc [] = []"
| "break_points cfg ws_col ty pc (e # rest) =
     (let brk = line_break_before ws_col pc e in
      brk # break_points cfg ws_col ty ((if brk then 0 else pc) + entry_width cfg (snd (ty e)) e) rest)"

text \<open>The text of a list of entries whose first has index \<open>i\<close>, for given break points.\<close>

fun entries_text :: "config \<Rightarrow> int \<Rightarrow> (dirent \<Rightarrow> string option \<times> char) \<Rightarrow> int \<Rightarrow> dirent list \<Rightarrow> bool list \<Rightarrow> string" where
  "entries_text cfg sel ty i (e # rest) (brk # brks) =
     entry_text cfg (i = sel) brk (fst (ty e)) (snd (ty e)) e @ entries_text cfg sel ty (i + 1) rest brks"
| "entries_text cfg sel ty i ents brks = []"

text \<open>
  The escape sequences that erase the last display and ask for the cursor position, and
  what \<^verbatim>\<open>display\<close> writes between the first cursor query and the entries: the directory
  under \<^verbatim>\<open>-d\<close>, the reset, and the marker chosen by the entry count \<open>n\<close>; with the number
  of bytes that \<^verbatim>\<open>print_count\<close> holds after it.
\<close>

definition ERASE :: string where
  "ERASE = ESC # ''[u'' @ ESC # ''[0J'' @ ESC # ''[2K''"

definition QUERY :: string where
  "QUERY = ESC # ''[6n''"

definition header_width :: "config \<Rightarrow> string \<Rightarrow> int \<Rightarrow> int" where
  "header_width cfg dir n =
     (if cfg_show_dir cfg then int (length (COLOR_BOLD @ COLOR_INVERT @ dir @ COLOR_RESET @ '': '')) else 0) +
     (if n < 0 then int (length (MSG_CANT_SCAN @ COLOR_RESET @ '' ''))
      else if n = 0 then int (length (MSG_EMPTY @ COLOR_RESET @ '' '')) else 0)"

definition head_text :: "config \<Rightarrow> string \<Rightarrow> int \<Rightarrow> string" where
  "head_text cfg dir n =
     (if cfg_show_dir cfg then COLOR_BOLD @ COLOR_INVERT @ dir @ COLOR_RESET @ '': '' else []) @
     COLOR_RESET @
     (if n < 0 then MSG_CANT_SCAN @ COLOR_RESET @ '' ''
      else if n = 0 then MSG_EMPTY @ COLOR_RESET @ '' '' else [])"

text \<open>
  The global variables that the entry loop and the cursor queries leave alone.
\<close>

definition fixed_part ::
  "state \<Rightarrow> string option \<times> int \<times> int \<times> int \<times> termios \<times> termios \<times> termios \<times> bool \<times> string" where
  "fixed_part s =
     (d_current_name s, d_current_len s, d_length s, selected s,
      tcattr_old s, tcattr_raw s, tty_attr s, atexit_restore s, stderr s)"

section \<open>The wrap rule in the words of the specification\<close>

text \<open>
  The specification's rendered width of an entry: the length of its name, one more for
  the indicator if indicators are enabled, and the length of the delimiter.
\<close>

definition rendered_width :: "config \<Rightarrow> dirent \<Rightarrow> int" where
  "rendered_width cfg e =
     int (length (d_name e)) + (if cfg_indicate cfg then 1 else 0) + int (length ENTRY_DELIM)"

text \<open>The specification's rule: break when appending that width would exceed the columns.\<close>

definition spec_line_break :: "config \<Rightarrow> int \<Rightarrow> int \<Rightarrow> dirent \<Rightarrow> bool" where
  "spec_line_break cfg ws_col print_count e = (print_count + rendered_width cfg e > ws_col)"

section \<open>Collations\<close>

text \<open>
  \<^verbatim>\<open>strcmp\<close>, of which C fixes the sign: that of the difference of the first two bytes that
  differ, as unsigned values; a proper prefix is smaller.
\<close>

fun strcmp :: "string \<Rightarrow> string \<Rightarrow> int" where
  "strcmp [] [] = 0"
| "strcmp [] (b # bs) = - 1"
| "strcmp (a # as) [] = 1"
| "strcmp (a # as) (b # bs) =
     (if a = b then strcmp as bs else if (of_char a :: nat) < of_char b then - 1 else 1)"

text \<open>The collation of the C locale, where \<^verbatim>\<open>strcoll\<close> is \<^verbatim>\<open>strcmp\<close>.\<close>

definition bytewise_le :: "string \<Rightarrow> string \<Rightarrow> bool" where
  "bytewise_le a b = (strcmp a b \<le> 0)"

definition to_lower :: "char \<Rightarrow> char" where
  "to_lower c =
     (case map_of (zip ''ABCDEFGHIJKLMNOPQRSTUVWXYZ'' ''abcdefghijklmnopqrstuvwxyz'') c of
        None \<Rightarrow> c
      | Some l \<Rightarrow> l)"

text \<open>
  A collation that compares letters without regard to case, as the first level of the
  collations of the \<^verbatim>\<open>en_US\<close> locales does.
\<close>

definition caseless_le :: "string \<Rightarrow> string \<Rightarrow> bool" where
  "caseless_le a b = (strcmp (map to_lower a) (map to_lower b) \<le> 0)"

section \<open>A concrete directory tree and session\<close>

definition demo_cfg :: config where
  "demo_cfg = \<lparr>cfg_show_dotfiles = False, cfg_color = True, cfg_clear_trace = False,
                cfg_show_dir = False, cfg_indicate = False, cfg_print_hex = False\<rparr>"

definition DT_DIR :: nat where
  "DT_DIR = 4"

definition DT_REG :: nat where
  "DT_REG = 8"

text \<open>
  \<^verbatim>\<open>/home\<close> holds \<^verbatim>\<open>apple\<close>, the directory \<^verbatim>\<open>Banana\<close> and \<^verbatim>\<open>cherry.txt\<close>; \<^verbatim>\<open>/home/Banana\<close> is
  empty; \<^verbatim>\<open>/locked\<close> cannot be opened; \<^verbatim>\<open>/busy\<close> can be opened but not scanned.
\<close>

definition demo_listing :: "string \<Rightarrow> dirent list option" where
  "demo_listing dir =
     (if dir = ''/home'' then
        Some [\<lparr>d_name = ''cherry.txt'', d_type = DT_REG\<rparr>, \<lparr>d_name = ''.'', d_type = DT_DIR\<rparr>,
              \<lparr>d_name = ''apple'', d_type = DT_REG\<rparr>, \<lparr>d_name = ''..'', d_type = DT_DIR\<rparr>,
              \<lparr>d_name = ''Banana'', d_type = DT_DIR\<rparr>]
      else if dir = ''/home/Banana'' then
        Some [\<lparr>d_name = ''.'', d_type = DT_DIR\<rparr>, \<lparr>d_name = ''..'', d_type = DT_DIR\<rparr>]
      else None)"

definition demo_env :: env where
  "demo_env =
     \<lparr>e_scandir = demo_listing,
      e_opendir = (\<lambda>dir. dir = ''/home'' \<or> dir = ''/home/Banana'' \<or> dir = ''/busy''),
      e_realpath = (\<lambda>path. if path = ''/home/..'' then ''/'' else path),
      e_access_x = (\<lambda>path. False),
      e_strcoll_le = bytewise_le,
      e_ws_col = 80,
      e_malloc_null = False,
      e_fork = Fork_parent,
      e_execv_ok = (\<lambda>prog. True)\<rparr>"

definition demo_termios :: termios where
  "demo_termios = \<lparr>c_echo = True, c_icanon = True, c_vmin = 1, c_vtime = 0\<rparr>"

text \<open>
  A session in \<^verbatim>\<open>/home\<close> after a first display, in raw mode, with the given values still to
  come from \<^verbatim>\<open>getchar\<close>.
\<close>

definition demo_state :: "string \<Rightarrow> int \<Rightarrow> string \<Rightarrow> int list \<Rightarrow> state" where
  "demo_state dir sel name inp =
     enter_raw_mode
       \<lparr>d_current_name = Some dir, d_current_len = int (length dir), d_length = 3,
        selected = sel, selected_name = name, last_overflow_count = 0,
        tcattr_old = demo_termios, tcattr_raw = demo_termios, tty_attr = demo_termios,
        atexit_restore = False, stdin = inp, stdout = [], stderr = []\<rparr>"

text \<open>The terminal's answer to a cursor query, as \<^verbatim>\<open>getchar\<close> values.\<close>

definition cursor_reply :: "string \<Rightarrow> int list" where
  "cursor_reply digits = map ord (ESC # ''['' @ digits @ ''R'')"

text \<open>
  The entries the loop of \<^verbatim>\<open>display\<close> runs over: those of \<^verbatim>\<open>scandir\<close>, none when it fails.
\<close>

definition listing :: "env \<Rightarrow> config \<Rightarrow> string \<Rightarrow> dirent list" where
  "listing env cfg dir = (case scandir env cfg dir of None \<Rightarrow> [] | Some ents \<Rightarrow> ents)"

text \<open>The keys of \<^verbatim>\<open>main\<close> that move the selection left and right.\<close>

definition left_keys :: "int list list" where
  "left_keys = [[ord (CHR ''H'')], [ord (CHR ''h'')], [0x1B, ord (CHR ''[''), ord (CHR ''D'')]]"

definition right_keys :: "int list list" where
  "right_keys = [[ord (CHR ''L'')], [ord (CHR ''l'')], [0x1B, ord (CHR ''[''), ord (CHR ''C'')]]"

text \<open>The keys of \<^verbatim>\<open>main\<close> that enter the selected entry.\<close>

definition select_keys :: "int list list" where
  "select_keys = [[ord (CHR ''J'')], [ord (CHR ''j'')], [0x0A], [0x1B, ord (CHR ''[''), ord (CHR ''B'')]]"



text \<open>
  What \<^verbatim>\<open>restore_tcattr\<close> writes when the overflow count is \<open>n\<close>: the sequence that shows
  the cursor, then the erase sequence under \<^verbatim>\<open>-c\<close> and \<open>n + 1\<close> newlines otherwise.
\<close>

definition restoration_text :: "config \<Rightarrow> int \<Rightarrow> string" where
  "restoration_text cfg n =
     ESC # ''[?25h'' @ (if cfg_clear_trace cfg then ERASE else replicate (nat (n + 1)) (CHR 0x0A))"


text \<open>
  \<open>restored_exit cfg s0 x\<close>: if the stop \<open>x\<close> is an exit, the terminal has the attributes
  saved in \<open>s0\<close> and the output since \<open>s0\<close> ends with the restoration text.
\<close>

definition restored_exit :: "config \<Rightarrow> state \<Rightarrow> stop \<times> state \<Rightarrow> bool" where
  "restored_exit cfg s0 x =
     (case fst x of
        Exit code \<Rightarrow>
          tty_attr (snd x) = tcattr_old s0 \<and>
          (\<exists>out. stdout (snd x) = stdout s0 @ out @ restoration_text cfg (last_overflow_count s0))
      | _ \<Rightarrow> True)"


section \<open>Lemmas about the model\<close>


lemma put_fields [simp]:
  "d_current_name (put x s) = d_current_name s"
  "d_current_len (put x s) = d_current_len s"
  "d_length (put x s) = d_length s"
  "selected (put x s) = selected s"
  "selected_name (put x s) = selected_name s"
  "last_overflow_count (put x s) = last_overflow_count s"
  "tcattr_old (put x s) = tcattr_old s"
  "tcattr_raw (put x s) = tcattr_raw s"
  "tty_attr (put x s) = tty_attr s"
  "atexit_restore (put x s) = atexit_restore s"
  "stdin (put x s) = stdin s"
  "stderr (put x s) = stderr s"
  "stdout (put x s) = stdout s @ x"
  by (simp_all add: put_def)

lemma put_put [simp]: "put b (put a s) = put (a @ b) s"
  by (simp add: put_def)

lemma put_Nil [simp]: "put [] s = s"
  by (simp add: put_def)

lemma put_selected_name [simp]:
  "put x (s\<lparr>selected_name := n\<rparr>) = (put x s)\<lparr>selected_name := n\<rparr>"
  by (simp add: put_def)

lemma fixed_part_put [simp]: "fixed_part (put x s) = fixed_part s"
  by (simp add: fixed_part_def)

lemma fixed_part_selected_name [simp]: "fixed_part (s\<lparr>selected_name := n\<rparr>) = fixed_part s"
  by (simp add: fixed_part_def)

lemma fixed_part_stdin [simp]: "fixed_part (s\<lparr>stdin := n\<rparr>) = fixed_part s"
  by (simp add: fixed_part_def)

lemma fixed_part_overflow [simp]: "fixed_part (s\<lparr>last_overflow_count := n\<rparr>) = fixed_part s"
  by (simp add: fixed_part_def)

lemma print_name_eq:
  "print_name cfg cs (s, pc) = (put (name_text cfg cs) s, pc + int (length (name_text cfg cs)))"
  by (induction cs arbitrary: s pc) (simp_all add: show_hex2_def)

lemma display_entry_Inr:
  assumes "get_entry_type env cfg s e = Inr (color, ind)"
  shows "display_entry env cfg ws i e (s, pc, nl) =
    Inr (put (entry_text cfg (i = selected s) (line_break_before ws pc e) color ind e)
           (if i = selected s then s\<lparr>selected_name := d_name e\<rparr> else s),
         (if line_break_before ws pc e then 0 else pc) + entry_width cfg ind e,
         (if line_break_before ws pc e then nl + 1 else nl))"
  using assms
  by (simp add: display_entry_def Let_def print_name_eq entry_text_def line_break_before_def
      entry_width_def split: option.splits)

lemma display_entry_Inl:
  assumes "get_entry_type env cfg s e = Inl x"
  shows "display_entry env cfg ws i e (s, pc, nl) = Inl x"
  using assms by (simp add: display_entry_def)

lemma the_type_cong2:
  assumes "d_current_name s' = d_current_name s" "d_current_len s' = d_current_len s"
  shows "the_type env cfg s' = the_type env cfg s"
  using assms
  by (auto simp add: the_type_def get_entry_type_def append_to_cd_def Let_def
      split: option.splits)

lemma the_type_cong:
  assumes "fixed_part s' = fixed_part s"
  shows "the_type env cfg s' = the_type env cfg s"
  using assms by (intro the_type_cong2) (simp_all add: fixed_part_def)

lemma display_entry_cases:
  assumes "display_entry env cfg ws i e (s, pc, nl) = Inr (s', pc', nl')"
  shows "s' = put (entry_text cfg (i = selected s) (line_break_before ws pc e)
                    (fst (the_type env cfg s e)) (snd (the_type env cfg s e)) e)
                (if i = selected s then s\<lparr>selected_name := d_name e\<rparr> else s)"
    and "pc' = (if line_break_before ws pc e then 0 else pc) + entry_width cfg (snd (the_type env cfg s e)) e"
    and "nl' = (if line_break_before ws pc e then nl + 1 else nl)"
proof -
  obtain color ind where t: "get_entry_type env cfg s e = Inr (color, ind)"
    using assms by (cases "get_entry_type env cfg s e") (auto simp: display_entry_Inl)
  have tt: "the_type env cfg s e = (color, ind)"
    by (simp add: the_type_def t)
  from display_entry_Inr [OF t, of ws i pc nl] assms
  show "s' = put (entry_text cfg (i = selected s) (line_break_before ws pc e)
                    (fst (the_type env cfg s e)) (snd (the_type env cfg s e)) e)
                (if i = selected s then s\<lparr>selected_name := d_name e\<rparr> else s)"
    and "pc' = (if line_break_before ws pc e then 0 else pc) + entry_width cfg (snd (the_type env cfg s e)) e"
    and "nl' = (if line_break_before ws pc e then nl + 1 else nl)"
    by (simp_all add: tt)
qed

lemma display_entries_step:
  assumes "display_entries env cfg ws i (e # ents) (s, pc, nl) = Inr (s', pc', nl')"
  obtains s1 pc1 nl1 where
    "display_entry env cfg ws i e (s, pc, nl) = Inr (s1, pc1, nl1)"
    "display_entries env cfg ws (i + 1) ents (s1, pc1, nl1) = Inr (s', pc', nl')"
  using assms by (auto split: sum.splits)

lemma display_entries_fixed:
  "display_entries env cfg ws i ents (s, pc, nl) = Inr (s', pc', nl') \<Longrightarrow>
   fixed_part s' = fixed_part s \<and> stdin s' = stdin s \<and> last_overflow_count s' = last_overflow_count s"
proof (induction ents arbitrary: i s pc nl)
  case Nil
  then show ?case by simp
next
  case (Cons e ents)
  from Cons.prems obtain s1 pc1 nl1 where
    step: "display_entry env cfg ws i e (s, pc, nl) = Inr (s1, pc1, nl1)"
    and rest: "display_entries env cfg ws (i + 1) ents (s1, pc1, nl1) = Inr (s', pc', nl')"
    by (rule display_entries_step)
  have "fixed_part s1 = fixed_part s \<and> stdin s1 = stdin s \<and> last_overflow_count s1 = last_overflow_count s"
    using display_entry_cases(1) [OF step] by (simp split: if_splits)
  with Cons.IH [OF rest] show ?case by simp
qed

lemma display_entries_stdout:
  "display_entries env cfg ws i ents (s, pc, nl) = Inr (s', pc', nl') \<Longrightarrow>
   stdout s' = stdout s @ entries_text cfg (selected s) (the_type env cfg s) i ents
                            (break_points cfg ws (the_type env cfg s) pc ents)
   \<and> nl' = nl + int (length (filter id (break_points cfg ws (the_type env cfg s) pc ents)))"
proof (induction ents arbitrary: i s pc nl)
  case Nil
  then show ?case by simp
next
  case (Cons e ents)
  from Cons.prems obtain s1 pc1 nl1 where
    step: "display_entry env cfg ws i e (s, pc, nl) = Inr (s1, pc1, nl1)"
    and rest: "display_entries env cfg ws (i + 1) ents (s1, pc1, nl1) = Inr (s', pc', nl')"
    by (rule display_entries_step)
  note c = display_entry_cases [OF step]
  have f: "fixed_part s1 = fixed_part s"
    using c(1) by (simp split: if_splits)
  then have sel: "selected s1 = selected s" by (simp add: fixed_part_def)
  have ty: "the_type env cfg s1 = the_type env cfg s"
    using the_type_cong [OF f] .
  have out: "stdout s1 = stdout s @ entry_text cfg (i = selected s) (line_break_before ws pc e)
      (fst (the_type env cfg s e)) (snd (the_type env cfg s e)) e"
    using c(1) by (simp split: if_splits)
  show ?case
    using Cons.IH [OF rest] by (simp add: sel ty out c(2) c(3) Let_def)
qed

lemma display_entries_selected_name:
  "display_entries env cfg ws i ents (s, pc, nl) = Inr (s', pc', nl') \<Longrightarrow>
   selected_name s' =
     (if i \<le> selected s \<and> selected s < i + int (length ents) then d_name (ents ! nat (selected s - i))
      else selected_name s)"
proof (induction ents arbitrary: i s pc nl)
  case Nil
  then show ?case by auto
next
  case (Cons e ents)
  from Cons.prems obtain s1 pc1 nl1 where
    step: "display_entry env cfg ws i e (s, pc, nl) = Inr (s1, pc1, nl1)"
    and rest: "display_entries env cfg ws (i + 1) ents (s1, pc1, nl1) = Inr (s', pc', nl')"
    by (rule display_entries_step)
  note c = display_entry_cases [OF step]
  have f: "fixed_part s1 = fixed_part s"
    using c(1) by (simp split: if_splits)
  then have sel: "selected s1 = selected s" by (simp add: fixed_part_def)
  have name1: "selected_name s1 = (if i = selected s then d_name e else selected_name s)"
    using c(1) by (simp split: if_splits)
  show ?case
  proof (cases "i = selected s")
    case True
    then show ?thesis using Cons.IH [OF rest] by (simp add: sel name1)
  next
    case False
    have "nat (selected s - i) = Suc (nat (selected s - (i + 1)))" if "i < selected s"
      using that by simp
    then show ?thesis using Cons.IH [OF rest] False by (auto simp add: sel name1)
  qed
qed

lemma get_cursor_pos_Inr:
  assumes "get_cursor_pos s = Inr (row, col, s')"
  shows "fixed_part s' = fixed_part s" "selected_name s' = selected_name s"
    "last_overflow_count s' = last_overflow_count s"
    "stdout s' = stdout s @ ESC # ''[6n''"
    "scan Scan_for_esc 0 0 (stdin s) = Some (row, col, stdin s')"
  using assms by (auto simp: get_cursor_pos_def Let_def fixed_part_def split: option.splits)

lemma display_head_Inr:
  assumes "display_head cfg s dir = Inr (col_before, s', pc)"
  shows "fixed_part s' = fixed_part s" "selected_name s' = selected_name s"
    "last_overflow_count s' = last_overflow_count s"
    "stdout s' = stdout s @ ESC # ''[u'' @ ESC # ''[0J'' @ ESC # ''[2K'' @ ESC # ''[6n'' @ head_text cfg dir (d_length s)"
proof -
  obtain row s1 where g: "get_cursor_pos (put (ESC # ''[u'' @ ESC # ''[0J'' @ ESC # ''[2K'') s) = Inr (row, col_before, s1)"
    using assms by (auto simp: display_head_def Let_def split: sum.splits)
  note c = get_cursor_pos_Inr [OF g]
  have s': "s' = put (head_text cfg dir (d_length s)) s1"
    using assms g c(1) by (auto simp add: display_head_def Let_def head_text_def fixed_part_def)
  show "fixed_part s' = fixed_part s" using c(1) by (simp add: s')
  show "selected_name s' = selected_name s" using c(2) by (simp add: s')
  show "last_overflow_count s' = last_overflow_count s" using c(3) by (simp add: s')
  show "stdout s' = stdout s @ ESC # ''[u'' @ ESC # ''[0J'' @ ESC # ''[2K'' @ ESC # ''[6n'' @ head_text cfg dir (d_length s)"
    using c(4) by (simp add: s')
qed

lemma display_tail_Inr:
  assumes "display_tail ws col_before (s, pc, nl) = Inr s'"
  shows "fixed_part s' = fixed_part s" "selected_name s' = selected_name s"
    "ws \<noteq> 0" "last_overflow_count s' = c_div (pc + nl * ws) ws"
    "\<exists>tl. stdout s' = stdout s @ ESC # ''[6n'' @ tl \<and>
       (tl = [] \<or> (\<exists>r c. tl = ESC # ''['' @ show_int r @ '';'' @ show_int c @ ''f'' @ ESC # ''[s''))"
proof -
  obtain row col s1 where g: "get_cursor_pos s = Inr (row, col, s1)"
    using assms by (auto simp: display_tail_def split: sum.splits)
  note c = get_cursor_pos_Inr [OF g]
  show ws: "ws \<noteq> 0" using assms g by (auto simp: display_tail_def split: if_splits)
  define s2 where "s2 = s1\<lparr>last_overflow_count := c_div (pc + nl * ws) ws\<rparr>"
  have s': "s' = (if last_overflow_count s2 \<noteq> 0
                    then put (ESC # ''['' @ show_int (row - last_overflow_count s2) @ '';''
                              @ show_int col_before @ ''f'' @ ESC # ''[s'') s2
                    else s2)"
    using assms g ws by (auto simp add: display_tail_def Let_def s2_def)
  show "fixed_part s' = fixed_part s" using c(1) by (simp add: s' s2_def)
  show "selected_name s' = selected_name s" using c(2) by (simp add: s' s2_def)
  show "last_overflow_count s' = c_div (pc + nl * ws) ws" by (simp add: s' s2_def)
  show "\<exists>tl. stdout s' = stdout s @ ESC # ''[6n'' @ tl \<and>
       (tl = [] \<or> (\<exists>r c. tl = ESC # ''['' @ show_int r @ '';'' @ show_int c @ ''f'' @ ESC # ''[s''))"
    using c(4) by (cases "last_overflow_count s2 = 0") (auto simp add: s' s2_def)
qed


lemma validate_selection_fields [simp]:
  "d_current_name (validate_selection s) = d_current_name s"
  "d_current_len (validate_selection s) = d_current_len s"
  "d_length (validate_selection s) = d_length s"
  "selected_name (validate_selection s) = selected_name s"
  "last_overflow_count (validate_selection s) = last_overflow_count s"
  "tcattr_old (validate_selection s) = tcattr_old s"
  "tcattr_raw (validate_selection s) = tcattr_raw s"
  "tty_attr (validate_selection s) = tty_attr s"
  "atexit_restore (validate_selection s) = atexit_restore s"
  "stdin (validate_selection s) = stdin s"
  "stdout (validate_selection s) = stdout s"
  "stderr (validate_selection s) = stderr s"
  by (simp_all add: validate_selection_def)

lemma validate_selection_selected:
  "selected (validate_selection s) =
     (if d_length s < 1 then 0
      else if selected s < 0 then d_length s - 1
      else if selected s > d_length s - 1 then 0
      else selected s)"
  by (simp add: validate_selection_def SELECTED_MIN_def SELECTED_MAX_def)

lemma validate_selection_range:
  "0 \<le> selected (validate_selection s)"
  "1 \<le> d_length s \<Longrightarrow> selected (validate_selection s) < d_length s"
  by (simp_all add: validate_selection_selected)

lemma display_scan_Some:
  assumes "scandir env cfg dir = Some ents" "display_scan env cfg s dir = Inr (ents', s1)"
  shows "ents' = ents" "s1 = validate_selection (s\<lparr>d_length := int (length ents)\<rparr>)" "e_opendir env dir"
  using assms by (auto simp: display_scan_def Let_def split: if_splits)

lemma display_scan_None:
  assumes "scandir env cfg dir = None" "display_scan env cfg s dir = Inr (ents', s1)"
  shows "ents' = []" "s1 = validate_selection (s\<lparr>d_length := - 1, selected_name := []\<rparr>)" "e_opendir env dir"
  using assms by (auto simp: display_scan_def Let_def split: if_splits)

lemma display_parts:
  assumes "d_current_name s = Some dir" "display env cfg s = Inr s'"
  obtains ents s1 cb s2 pc s3 pc3 nl3 where
    "display_scan env cfg s dir = Inr (ents, s1)"
    "display_head cfg s1 dir = Inr (cb, s2, pc)"
    "display_entries env cfg (int (e_ws_col env)) 0 ents (s2, pc, 0) = Inr (s3, pc3, nl3)"
    "display_tail (int (e_ws_col env)) cb (s3, pc3, nl3) = Inr s'"
    "d_length s3 \<noteq> - 1"
  using assms
  by (auto simp: display_def free_d_children_def Let_def split: sum.splits if_splits)

lemma display_head_count:
  assumes "display_head cfg s dir = Inr (col_before, s', pc)"
  shows "pc = header_width cfg dir (d_length s)"
proof -
  obtain row s1 where g: "get_cursor_pos (put (ESC # ''[u'' @ ESC # ''[0J'' @ ESC # ''[2K'') s) = Inr (row, col_before, s1)"
    using assms by (auto simp: display_head_def Let_def split: sum.splits)
  note c = get_cursor_pos_Inr [OF g]
  show ?thesis
    using assms g c(1) by (auto simp add: display_head_def Let_def header_width_def fixed_part_def)
qed

lemma display_Some:
  assumes dir: "d_current_name s = Some dir"
    and scan: "scandir env cfg dir = Some ents"
    and run: "display env cfg s = Inr s'"
  shows "d_length s' = int (length ents)"
    and "selected s' = selected (validate_selection (s\<lparr>d_length := int (length ents)\<rparr>))"
    and "selected_name s' = (if ents = [] then selected_name s else d_name (ents ! nat (selected s')))"
    and "d_current_name s' = Some dir"
    and "\<exists>tl. stdout s' = stdout s @ ERASE @ QUERY @ head_text cfg dir (int (length ents)) @
           entries_text cfg (selected s') (the_type env cfg s) 0 ents
             (break_points cfg (int (e_ws_col env)) (the_type env cfg s)
                (header_width cfg dir (int (length ents))) ents) @ QUERY @ tl \<and>
         (tl = [] \<or> (\<exists>r c. tl = ESC # ''['' @ show_int r @ '';'' @ show_int c @ ''f'' @ ESC # ''[s''))"
proof -
  from dir run obtain ents' s1 cb s2 pc s3 pc3 nl3 where
    p1: "display_scan env cfg s dir = Inr (ents', s1)" and
    p2: "display_head cfg s1 dir = Inr (cb, s2, pc)" and
    p3: "display_entries env cfg (int (e_ws_col env)) 0 ents' (s2, pc, 0) = Inr (s3, pc3, nl3)" and
    p4: "display_tail (int (e_ws_col env)) cb (s3, pc3, nl3) = Inr s'" and
    p5: "d_length s3 \<noteq> - 1"
    by (rule display_parts)
  note a = display_scan_Some [OF scan p1]
  note b = display_head_Inr [OF p2]
  note b' = display_head_count [OF p2]
  note c = display_entries_fixed [OF p3] display_entries_stdout [OF p3] display_entries_selected_name [OF p3]
  note d = display_tail_Inr [OF p4]
  have f: "fixed_part s' = fixed_part s1"
    using b(1) c(1) d(1) by simp
  have f2: "fixed_part s2 = fixed_part s1" using b(1) .
  have ty: "the_type env cfg s2 = the_type env cfg s"
    using the_type_cong [OF f2] the_type_cong2 [of s1 s env cfg] by (simp add: a(2))
  show len: "d_length s' = int (length ents)"
    using f by (simp add: fixed_part_def a(2))
  show sel: "selected s' = selected (validate_selection (s\<lparr>d_length := int (length ents)\<rparr>))"
    using f by (simp add: fixed_part_def a(2))
  have sel2: "selected s2 = selected s'" using f f2 by (simp add: fixed_part_def)
  have range: "0 \<le> selected s'" "ents \<noteq> [] \<Longrightarrow> selected s' < int (length ents)"
    using validate_selection_range [of "s\<lparr>d_length := int (length ents)\<rparr>"]
    by (auto simp: sel Suc_le_eq)
  show "selected_name s' = (if ents = [] then selected_name s else d_name (ents ! nat (selected s')))"
    using c(3) b(2) d(2) range by (simp add: a(1) a(2) sel2)
  show "d_current_name s' = Some dir"
    using f dir by (simp add: fixed_part_def a(2))
  from d(5) obtain tl where tl: "stdout s' = stdout s3 @ ESC # ''[6n'' @ tl"
    "tl = [] \<or> (\<exists>r c. tl = ESC # ''['' @ show_int r @ '';'' @ show_int c @ ''f'' @ ESC # ''[s'')"
    by blast
  have "stdout s' = stdout s @ ERASE @ QUERY @ head_text cfg dir (int (length ents)) @
           entries_text cfg (selected s') (the_type env cfg s) 0 ents
             (break_points cfg (int (e_ws_col env)) (the_type env cfg s)
                (header_width cfg dir (int (length ents))) ents) @ QUERY @ tl"
    using tl(1) c(2) b(4) b' by (simp add: a(1) a(2) sel2 ty ERASE_def QUERY_def)
  with tl(2) show "\<exists>tl. stdout s' = stdout s @ ERASE @ QUERY @ head_text cfg dir (int (length ents)) @
           entries_text cfg (selected s') (the_type env cfg s) 0 ents
             (break_points cfg (int (e_ws_col env)) (the_type env cfg s)
                (header_width cfg dir (int (length ents))) ents) @ QUERY @ tl \<and>
         (tl = [] \<or> (\<exists>r c. tl = ESC # ''['' @ show_int r @ '';'' @ show_int c @ ''f'' @ ESC # ''[s''))"
    by blast
qed

text \<open>
  After a failing \<^verbatim>\<open>scandir\<close> the render never returns: it exits at \<^verbatim>\<open>opendir\<close>, waits for
  the terminal, or reaches line 306 with \<open>d_children\<close> unassigned.
\<close>

lemma display_None:
  assumes dir: "d_current_name s = Some dir"
    and scan: "scandir env cfg dir = None"
    and run: "display env cfg s = Inr s'"
  shows False
proof -
  from dir run obtain ents' s1 cb s2 pc s3 pc3 nl3 where
    p1: "display_scan env cfg s dir = Inr (ents', s1)" and
    p2: "display_head cfg s1 dir = Inr (cb, s2, pc)" and
    p3: "display_entries env cfg (int (e_ws_col env)) 0 ents' (s2, pc, 0) = Inr (s3, pc3, nl3)" and
    p4: "display_tail (int (e_ws_col env)) cb (s3, pc3, nl3) = Inr s'" and
    p5: "d_length s3 \<noteq> - 1"
    by (rule display_parts)
  note a = display_scan_None [OF scan p1]
  note b = display_head_Inr [OF p2]
  have "s3 = s2"
    using p3 by (simp add: a(1))
  then have "d_length s3 = - 1"
    using b(1) by (simp add: fixed_part_def a(2))
  with p5 show False by simp
qed

section \<open>C1: the selection index wraps\<close>

lemma redo_left:
  assumes "k \<in> set left_keys"
  shows "redo env cfg s (k @ rest) = Inr (s\<lparr>stdin := rest, selected := selected s - 1\<rparr>)"
  using assms by (auto simp: left_keys_def ord_def key_switch_def escape_key_def arrow_key_def)

lemma redo_right:
  assumes "k \<in> set right_keys"
  shows "redo env cfg s (k @ rest) = Inr (s\<lparr>stdin := rest, selected := selected s + 1\<rparr>)"
  using assms by (auto simp: right_keys_def ord_def key_switch_def escape_key_def arrow_key_def)

lemma display_selected:
  assumes dir: "d_current_name s = Some dir" and run: "display env cfg s = Inr s'"
  shows "selected s' =
     (let n = int (length (listing env cfg dir)) in
      if n < 1 then 0 else if selected s < 0 then n - 1 else if selected s > n - 1 then 0 else selected s)"
proof (cases "scandir env cfg dir")
  case None
  then show ?thesis using display_None [OF dir None run] by simp
next
  case (Some ents)
  then show ?thesis using display_Some(2) [OF dir Some run]
    by (simp add: listing_def validate_selection_selected Let_def)
qed

lemma display_empty_output:
  assumes dir: "d_current_name s = Some dir" and run: "display env cfg s = Inr s'"
    and empty: "listing env cfg dir = []"
  shows "\<exists>tl. stdout s' = stdout s @ ERASE @ QUERY @ head_text cfg dir (d_length s') @ QUERY @ tl \<and>
         (tl = [] \<or> (\<exists>r c. tl = ESC # ''['' @ show_int r @ '';'' @ show_int c @ ''f'' @ ESC # ''[s''))"
proof (cases "scandir env cfg dir")
  case None
  then show ?thesis using display_None [OF dir None run] by simp
next
  case (Some ents)
  then have "ents = []" using empty by (simp add: listing_def)
  then show ?thesis using display_Some(1,5) [OF dir Some run] by simp
qed

text \<open>
  C1. In a round of \<^verbatim>\<open>main\<close> that starts with a left key (\<^verbatim>\<open>H\<close>, \<^verbatim>\<open>h\<close>, Left) while the
  selection is 0 and renders a non-empty list, the selection becomes the last index; one
  that starts with a right key (\<^verbatim>\<open>L\<close>, \<^verbatim>\<open>l\<close>, Right) at the last index makes it 0. A
  render of an empty list leaves the selection at 0, and writes only the erase sequence,
  the cursor query, the header with the marker, the second query and possibly the
  repositioning: no entry, so none in inverse video.
\<close>

theorem selection_wraps_modulo_count:
  assumes dir: "d_current_name s = Some dir"
  shows "(stdin s = k @ rest \<and> k \<in> set left_keys \<and> selected s = 0 \<and> listing env cfg dir \<noteq> [] \<and>
          main_round env cfg s = Inr s'
            \<longrightarrow> selected s' = int (length (listing env cfg dir)) - 1) \<and>
         (stdin s = k @ rest \<and> k \<in> set right_keys \<and> selected s = int (length (listing env cfg dir)) - 1 \<and>
          listing env cfg dir \<noteq> [] \<and> main_round env cfg s = Inr s'
            \<longrightarrow> selected s' = 0) \<and>
         (listing env cfg dir = [] \<and> display env cfg s = Inr s'
            \<longrightarrow> selected s' = 0 \<and>
                (\<exists>tl. stdout s' = stdout s @ ERASE @ QUERY @ head_text cfg dir (d_length s') @ QUERY @ tl \<and>
                   (tl = [] \<or> (\<exists>r c. tl = ESC # ''['' @ show_int r @ '';'' @ show_int c @ ''f'' @ ESC # ''[s''))))"
proof (intro conjI impI)
  assume a: "stdin s = k @ rest \<and> k \<in> set left_keys \<and> selected s = 0 \<and> listing env cfg dir \<noteq> [] \<and>
          main_round env cfg s = Inr s'"
  let ?s1 = "s\<lparr>stdin := rest, selected := selected s - 1\<rparr>"
  from a have k: "stdin s = k @ rest" "k \<in> set left_keys" and m: "main_round env cfg s = Inr s'"
    by simp_all
  have "display env cfg ?s1 = Inr s'"
    using m by (simp add: main_round_def k(1) redo_left [OF k(2)])
  from display_selected [OF _ this, of dir] dir a
  show "selected s' = int (length (listing env cfg dir)) - 1"
    by (simp add: Let_def)
next
  assume a: "stdin s = k @ rest \<and> k \<in> set right_keys \<and> selected s = int (length (listing env cfg dir)) - 1 \<and>
          listing env cfg dir \<noteq> [] \<and> main_round env cfg s = Inr s'"
  let ?s1 = "s\<lparr>stdin := rest, selected := selected s + 1\<rparr>"
  from a have k: "stdin s = k @ rest" "k \<in> set right_keys" and m: "main_round env cfg s = Inr s'"
    by simp_all
  have "display env cfg ?s1 = Inr s'"
    using m by (simp add: main_round_def k(1) redo_right [OF k(2)])
  from display_selected [OF _ this, of dir] dir a
  show "selected s' = 0"
    by (simp add: Let_def)
next
  assume a: "listing env cfg dir = [] \<and> display env cfg s = Inr s'"
  from display_selected [OF dir, of env cfg s'] a
  show "selected s' = 0" by (simp add: Let_def)
next
  assume a: "listing env cfg dir = [] \<and> display env cfg s = Inr s'"
  then show "\<exists>tl. stdout s' = stdout s @ ERASE @ QUERY @ head_text cfg dir (d_length s') @ QUERY @ tl \<and>
                   (tl = [] \<or> (\<exists>r c. tl = ESC # ''['' @ show_int r @ '';'' @ show_int c @ ''f'' @ ESC # ''[s''))"
    using display_empty_output [OF dir, of env cfg s'] by simp
qed

text \<open>The definitions that evaluate the model on the concrete session.\<close>

lemmas eval_defs = main_round_def display_def display_scan_def display_head_def display_tail_def
  display_entry_def get_entry_type_def append_to_cd_def scandir_def alphasort_def display_filter_def
  demo_env_def demo_cfg_def demo_listing_def demo_state_def enter_raw_mode_def demo_termios_def cursor_reply_def
  get_cursor_pos_def validate_selection_def put_def ord_def ESC_def to_char_def Let_def
  COLOR_RESET_def COLOR_INVERT_def COLOR_BOLD_def MSG_EMPTY_def MSG_CANT_SCAN_def ENTRY_DELIM_def
  SELECTED_MIN_def SELECTED_MAX_def PATH_MAX_def colors_def indicators_def DT_SOCK_def DT_DIR_def DT_REG_def
  bytewise_le_def c_div_def show_int_def cd_def listing_def key_switch_def escape_key_def arrow_key_def
  free_d_children_def

theorem selection_wraps_modulo_count_witness:
  "(\<exists>s'. main_round demo_env demo_cfg
            (demo_state ''/home'' 0 ''Banana'' (map ord ''h'' @ cursor_reply ''5;1'' @ cursor_reply ''5;1'')) = Inr s'
         \<and> selected s' = 2) \<and>
   (\<exists>s'. main_round demo_env demo_cfg
            (demo_state ''/home'' 2 ''cherry.txt'' (map ord ''l'' @ cursor_reply ''5;1'' @ cursor_reply ''5;1'')) = Inr s'
         \<and> selected s' = 0) \<and>
   (\<exists>s'. display demo_env demo_cfg
            (demo_state ''/home/Banana'' 1 ''Banana'' (cursor_reply ''5;1'' @ cursor_reply ''5;12'')) = Inr s'
         \<and> selected s' = 0 \<and> stdout s' = ERASE @ QUERY @ COLOR_RESET @ MSG_EMPTY @ COLOR_RESET @ '' '' @ QUERY)"
proof -
  let ?left = "demo_state ''/home'' 0 ''Banana'' (map ord ''h'' @ cursor_reply ''5;1'' @ cursor_reply ''5;1'')"
  let ?right = "demo_state ''/home'' 2 ''cherry.txt'' (map ord ''l'' @ cursor_reply ''5;1'' @ cursor_reply ''5;1'')"
  let ?empty = "demo_state ''/home/Banana'' 1 ''Banana'' (cursor_reply ''5;1'' @ cursor_reply ''5;12'')"
  have home: "listing demo_env demo_cfg ''/home'' =
      [\<lparr>d_name = ''Banana'', d_type = DT_DIR\<rparr>, \<lparr>d_name = ''apple'', d_type = DT_REG\<rparr>,
       \<lparr>d_name = ''cherry.txt'', d_type = DT_REG\<rparr>]"
    by (simp add: eval_defs)
  have banana: "listing demo_env demo_cfg ''/home/Banana'' = []"
    by (simp add: eval_defs)
  obtain l where l: "main_round demo_env demo_cfg ?left = Inr l"
    by (simp add: eval_defs)
  obtain r where r: "main_round demo_env demo_cfg ?right = Inr r"
    by (simp add: eval_defs)
  obtain e where e: "display demo_env demo_cfg ?empty = Inr e"
    by (simp add: eval_defs)
  have out: "stdout e = ERASE @ QUERY @ COLOR_RESET @ MSG_EMPTY @ COLOR_RESET @ '' '' @ QUERY"
    using e by (auto simp add: eval_defs ERASE_def QUERY_def)
  have "selected l = 2"
    using selection_wraps_modulo_count [where s = ?left and dir = "''/home''" and k = "map ord ''h''"
        and rest = "cursor_reply ''5;1'' @ cursor_reply ''5;1''" and env = demo_env and cfg = demo_cfg
        and s' = l] l
    by (simp add: home left_keys_def ord_def) (simp add: demo_state_def enter_raw_mode_def)
  moreover have "selected r = 0"
    using selection_wraps_modulo_count [where s = ?right and dir = "''/home''" and k = "map ord ''l''"
        and rest = "cursor_reply ''5;1'' @ cursor_reply ''5;1''" and env = demo_env and cfg = demo_cfg
        and s' = r] r
    by (simp add: home right_keys_def ord_def) (simp add: demo_state_def enter_raw_mode_def)
  moreover have "selected e = 0"
    using selection_wraps_modulo_count [where s = ?empty and dir = "''/home/Banana''"
        and env = demo_env and cfg = demo_cfg and s' = e] e
    by (simp add: banana) (simp add: demo_state_def enter_raw_mode_def)
  ultimately show ?thesis using l r e out by simp
qed

section \<open>What restore_tcattr writes\<close>

lemma put_newlines_eq:
  "put_newlines l n s = put (replicate (nat (n + 1 - l)) (CHR 0x0A)) s"
proof (induction l n s rule: put_newlines.induct)
  case (1 l n s)
  show ?case
  proof (cases "l \<le> n")
    case True
    then have "nat (n + 1 - l) = Suc (nat (n + 1 - (l + 1)))"
      by simp
    then have "replicate (nat (n + 1 - l)) (CHR 0x0A) = [CHR 0x0A] @ replicate (nat (n + 1 - (l + 1))) (CHR 0x0A)"
      by simp
    then show ?thesis
      using True "1.IH" [OF True] by (simp add: put_newlines.simps [of l n s])
  next
    case False
    then show ?thesis
      by (simp add: put_newlines.simps [of l n s])
  qed
qed

lemma restore_tcattr_eq:
  "restore_tcattr cfg s =
     (put (ESC # ''[?25h'' @
           (if cfg_clear_trace cfg then ERASE else replicate (nat (last_overflow_count s + 1)) (CHR 0x0A))) s)
       \<lparr>tty_attr := tcattr_old s\<rparr>"
  by (simp add: restore_tcattr_def Let_def put_newlines_eq ERASE_def)

lemma restore_tcattr_fields [simp]:
  "d_current_name (restore_tcattr cfg s) = d_current_name s"
  "d_current_len (restore_tcattr cfg s) = d_current_len s"
  "d_length (restore_tcattr cfg s) = d_length s"
  "selected (restore_tcattr cfg s) = selected s"
  "selected_name (restore_tcattr cfg s) = selected_name s"
  "last_overflow_count (restore_tcattr cfg s) = last_overflow_count s"
  "tcattr_old (restore_tcattr cfg s) = tcattr_old s"
  "tcattr_raw (restore_tcattr cfg s) = tcattr_raw s"
  "tty_attr (restore_tcattr cfg s) = tcattr_old s"
  "atexit_restore (restore_tcattr cfg s) = atexit_restore s"
  "stdin (restore_tcattr cfg s) = stdin s"
  "stderr (restore_tcattr cfg s) = stderr s"
  by (simp_all add: restore_tcattr_eq)

section \<open>C2: the cursor position parser\<close>

text \<open>Values before the first escape are skipped, whatever the accumulators hold.\<close>

lemma scan_skips_to_esc:
  assumes "0x1B \<notin> set pre"
  shows "scan Scan_for_esc row col (pre @ inp) = scan Scan_for_esc row col inp"
  using assms by (induction pre) auto

text \<open>A well-formed reply read from the start gives its two numbers.\<close>

lemma get_cursor_pos_garbage_prefix:
  "get_cursor_pos (s\<lparr>stdin := map ord ''garbage'' @ cursor_reply ''12;34'' @ rest\<rparr>) =
     Inr (12, 34, s\<lparr>stdout := stdout s @ ESC # ''[6n'', stdin := rest\<rparr>)"
  by (simp add: get_cursor_pos_def cursor_reply_def ord_def ESC_def to_char_def)

text \<open>
  C2. The example of the claim holds (\<open>get_cursor_pos_garbage_prefix\<close>), but the scan does
  not start again from the beginning after a value that breaks the grammar: the digits
  read so far stay in \<^verbatim>\<open>*row\<close> and \<^verbatim>\<open>*col\<close>. After the broken reply \<^verbatim>\<open>ESC [ 5 x\<close> the reply
  \<^verbatim>\<open>ESC [ 12 ; 34 R\<close> is reported as row 512, where the same reply read from the start
  gives row 12.
\<close>

theorem get_cursor_pos_restart_keeps_digits:
  "(\<exists>s'. get_cursor_pos (demo_state ''/home'' 0 ''Banana'' (map ord (ESC # ''[5x'') @ cursor_reply ''12;34''))
            = Inr (512, 34, s')) \<and>
   (\<exists>s'. get_cursor_pos (demo_state ''/home'' 0 ''Banana'' (cursor_reply ''12;34''))
            = Inr (12, 34, s'))"
  by (simp add: get_cursor_pos_def cursor_reply_def ord_def ESC_def to_char_def demo_state_def
      enter_raw_mode_def)

section \<open>C4: a directory that cannot be read\<close>

lemma CHECKBAD_fields [simp]:
  "fst (CHECKBAD cfg s err msg) = Exit err"
  "stderr (snd (CHECKBAD cfg s err msg)) = stderr s @ msg"
  by (simp_all add: CHECKBAD_def exit_with_def)

lemma display_scan_unopened:
  assumes "\<not> e_opendir env dir"
  shows "\<exists>s'. display_scan env cfg s dir = Inl (Exit 1, s') \<and> stderr s' = stderr s @ ''Could not open '' @ dir"
proof -
  obtain s2 where "display_scan env cfg s dir = Inl (CHECKBAD cfg s2 1 (''Could not open '' @ dir))"
    and "stderr s2 = stderr s"
    using assms by (simp add: display_scan_def Let_def)
  then show ?thesis
    by (cases "CHECKBAD cfg s2 1 (''Could not open '' @ dir)")
       (use CHECKBAD_fields [of cfg s2 1 "''Could not open '' @ dir"] in auto)
qed

text \<open>
  When \<^verbatim>\<open>opendir\<close> fails, \<^verbatim>\<open>display\<close> ends the program with status 1, whatever \<^verbatim>\<open>scandir\<close>
  returned.
\<close>

lemma display_unopened_exits:
  assumes "d_current_name s = Some dir" "\<not> e_opendir env dir"
  shows "\<exists>s'. display env cfg s = Inl (Exit 1, s') \<and> stderr s' = stderr s @ ''Could not open '' @ dir"
  using display_scan_unopened [OF assms(2), of cfg s] assms(1)
  by (auto simp: display_def)

text \<open>
  C4. The directory \<^verbatim>\<open>/locked\<close> cannot be opened, so both \<^verbatim>\<open>scandir\<close> and \<^verbatim>\<open>opendir\<close> fail
  for it: \<^verbatim>\<open>display\<close> does not write the marker and return, it ends the program with
  status 1 and the message \<^verbatim>\<open>Could not open /locked\<close>. For \<^verbatim>\<open>/busy\<close>, which \<^verbatim>\<open>opendir\<close> opens
  although \<^verbatim>\<open>scandir\<close> failed, the marker is written, but the render does not return
  either: it reaches line 306 with \<open>d_children\<close> never assigned.
\<close>

theorem display_unreadable_directory_exits:
  "(\<exists>s'. display demo_env demo_cfg
            (demo_state ''/locked'' 0 ''Banana'' (cursor_reply ''5;1'' @ cursor_reply ''5;21''))
          = Inl (Exit 1, s') \<and> stderr s' = ''Could not open /locked'') \<and>
   (\<exists>s'. display demo_env demo_cfg
            (demo_state ''/busy'' 0 ''Banana'' (cursor_reply ''5;1'' @ cursor_reply ''5;21''))
          = Inl (Undefined, s') \<and>
         stdout s' = ERASE @ QUERY @ COLOR_RESET @ MSG_CANT_SCAN @ COLOR_RESET @ '' '')"
proof
  let ?s = "demo_state ''/locked'' 0 ''Banana'' (cursor_reply ''5;1'' @ cursor_reply ''5;21'')"
  have d: "d_current_name ?s = Some ''/locked''" and e: "stderr ?s = []"
    by (simp_all add: demo_state_def enter_raw_mode_def)
  have n: "\<not> e_opendir demo_env ''/locked''"
    by (simp add: demo_env_def)
  from display_unopened_exits [OF d n, of demo_cfg]
  show "\<exists>s'. display demo_env demo_cfg ?s = Inl (Exit 1, s') \<and> stderr s' = ''Could not open /locked''"
    by (simp add: e)
next
  show "\<exists>s'. display demo_env demo_cfg
            (demo_state ''/busy'' 0 ''Banana'' (cursor_reply ''5;1'' @ cursor_reply ''5;21''))
          = Inl (Undefined, s') \<and>
         stdout s' = ERASE @ QUERY @ COLOR_RESET @ MSG_CANT_SCAN @ COLOR_RESET @ '' ''"
    by (simp add: eval_defs ERASE_def QUERY_def)
qed

section \<open>C3: where the lines break\<close>

lemma demo_cfg_fields [simp]:
  "cfg_show_dotfiles demo_cfg = False" "cfg_color demo_cfg = True" "cfg_clear_trace demo_cfg = False"
  "cfg_show_dir demo_cfg = False" "cfg_indicate demo_cfg = False" "cfg_print_hex demo_cfg = False"
  by (simp_all add: demo_cfg_def)

lemma digit_char_not_newline:
  assumes "n < 16"
  shows "digit_char n \<noteq> CHR 0x0A"
proof -
  have "digit_char n \<in> set ''0123456789ABCDEF''"
    unfolding digit_char_def using assms by (intro nth_mem) simp
  moreover have "CHR 0x0A \<notin> set ''0123456789ABCDEF''"
    by simp
  ultimately show ?thesis by metis
qed

lemma newline_not_in_show_hex2: "CHR 0x0A \<notin> set (show_hex2 c)"
proof -
  have "(of_char c :: nat) < 256"
    by (rule nat_of_char_less_256)
  then have "(of_char c :: nat) div 16 < 16" "(of_char c :: nat) mod 16 < 16"
    by (simp_all add: less_mult_imp_div_less)
  from digit_char_not_newline [OF this(1)] digit_char_not_newline [OF this(2)]
  show ?thesis
    by (simp add: show_hex2_def)
qed

lemma newline_not_in_name_text: "CHR 0x0A \<notin> set (name_text cfg cs)"
  using newline_not_in_show_hex2 by (induction cs) auto

lemma type_tables_no_newline:
  "\<forall>n<13. indicators ! n \<noteq> CHR 0x0A \<and> (\<forall>c. colors ! n = Some c \<longrightarrow> CHR 0x0A \<notin> set c)"
  by (simp add: eval_nat_numeral All_less_Suc colors_def indicators_def ESC_def)

lemma the_type_no_newline:
  "snd (the_type env cfg s e) \<noteq> CHR 0x0A \<and>
   (\<forall>c. fst (the_type env cfg s e) = Some c \<longrightarrow> CHR 0x0A \<notin> set c)"
proof (cases "d_type e > 0 \<and> d_type e \<le> DT_SOCK
         \<and> (colors ! d_type e \<noteq> None \<or> indicators ! d_type e \<noteq> CHR 0x00)")
  case True
  then have "d_type e < 13"
    by (simp add: DT_SOCK_def)
  moreover have "the_type env cfg s e = (colors ! d_type e, indicators ! d_type e)"
    using True by (simp add: the_type_def get_entry_type_def)
  ultimately show ?thesis
    using type_tables_no_newline by simp
next
  case False
  then have "the_type env cfg s e = (None, CHR 0x00) \<or> the_type env cfg s e = (Some (ESC # ''[32;1m''), CHR ''*'')"
    by (auto simp: the_type_def get_entry_type_def split: sum.splits)
  then show ?thesis
    by (auto simp: ESC_def)
qed

lemma newline_in_entry_text:
  "(CHR 0x0A \<in> set (entry_text cfg sel brk (fst (the_type env cfg s e)) (snd (the_type env cfg s e)) e)) = brk"
proof -
  have i: "snd (the_type env cfg s e) \<noteq> CHR 0x0A"
    and c: "\<And>c. fst (the_type env cfg s e) = Some c \<Longrightarrow> CHR 0x0A \<notin> set c"
    using the_type_no_newline [of env cfg s e] by blast+
  have fixed: "CHR 0x0A \<notin> set COLOR_INVERT" "CHR 0x0A \<notin> set COLOR_RESET" "CHR 0x0A \<notin> set ENTRY_DELIM"
    by (simp_all add: COLOR_INVERT_def COLOR_RESET_def ENTRY_DELIM_def ESC_def)
  show ?thesis
    using i c fixed newline_not_in_name_text [of cfg "d_name e"]
    by (cases "fst (the_type env cfg s e)") (auto simp: entry_text_def)
qed

lemma length_break_points [simp]: "length (break_points cfg ws ty pc ents) = length ents"
  by (induction ents arbitrary: pc) (simp_all add: Let_def)

text \<open>
  C3, as amended. The entry loop writes each entry's text in turn, with a line break in
  front of the name exactly at the break points of the column accounting: before the
  entry at which the running count plus the length of the name, the length of the
  delimiter and one (kept for the indicator whether or not \<^verbatim>\<open>-F\<close> is given) reaches or
  exceeds the column count. The running count restarts at 0 after a break and advances
  by the columns written. \<^verbatim>\<open>newline_count\<close> counts the breaks. The break points are a
  function of the input.
\<close>

theorem line_breaks_follow_column_accounting:
  assumes "display_entries env cfg ws_col i ents (s, pc, nl) = Inr (s', pc', nl')"
  shows "stdout s' = stdout s @ entries_text cfg (selected s) (the_type env cfg s) i ents
                                 (break_points cfg ws_col (the_type env cfg s) pc ents) \<and>
         nl' = nl + int (length (filter id (break_points cfg ws_col (the_type env cfg s) pc ents))) \<and>
         (\<forall>e \<in> set ents. \<forall>sel brk.
            (CHR 0x0A \<in> set (entry_text cfg sel brk (fst (the_type env cfg s e)) (snd (the_type env cfg s e)) e)) = brk) \<and>
         (\<forall>e pc0 rest. break_points cfg ws_col (the_type env cfg s) pc0 (e # rest) =
            (pc0 + int (length (d_name e)) + int (length ENTRY_DELIM) + 1 \<ge> ws_col) #
            break_points cfg ws_col (the_type env cfg s)
              ((if pc0 + int (length (d_name e)) + int (length ENTRY_DELIM) + 1 \<ge> ws_col then 0 else pc0)
                 + entry_width cfg (snd (the_type env cfg s e)) e) rest)"
  using display_entries_stdout [OF assms] newline_in_entry_text
  by (simp add: Let_def line_break_before_def)

theorem line_breaks_follow_column_accounting_witness:
  "\<exists>s' pc' nl'.
     display_entries demo_env demo_cfg 20 0 (listing demo_env demo_cfg ''/home'')
       (demo_state ''/home'' 1 ''apple'' [], 0, 0) = Inr (s', pc', nl') \<and>
     break_points demo_cfg 20 (the_type demo_env demo_cfg (demo_state ''/home'' 1 ''apple'' [])) 0
       (listing demo_env demo_cfg ''/home'') = [False, False, True] \<and>
     nl' = 1 \<and>
     stdout s' = ESC # ''[34;1mBanana'' @ COLOR_RESET @ ''  '' @
                 COLOR_INVERT @ ''apple'' @ COLOR_RESET @ ''  '' @
                 [CHR 0x0A] @ ''cherry.txt'' @ COLOR_RESET @ ''  ''"
proof -
  let ?s = "demo_state ''/home'' 1 ''apple'' []"
  let ?ents = "listing demo_env demo_cfg ''/home''"
  have home: "?ents =
      [\<lparr>d_name = ''Banana'', d_type = DT_DIR\<rparr>, \<lparr>d_name = ''apple'', d_type = DT_REG\<rparr>,
       \<lparr>d_name = ''cherry.txt'', d_type = DT_REG\<rparr>]"
    by (simp add: eval_defs)
  obtain s' pc' nl' where run: "display_entries demo_env demo_cfg 20 0 ?ents (?s, 0, 0) = Inr (s', pc', nl')"
    by (simp add: home) (simp add: eval_defs)
  have ty: "the_type demo_env demo_cfg ?s \<lparr>d_name = ''Banana'', d_type = DT_DIR\<rparr> = (Some (ESC # ''[34;1m''), CHR ''/'')"
    "the_type demo_env demo_cfg ?s \<lparr>d_name = ''apple'', d_type = DT_REG\<rparr> = (None, CHR 0x00)"
    "the_type demo_env demo_cfg ?s \<lparr>d_name = ''cherry.txt'', d_type = DT_REG\<rparr> = (None, CHR 0x00)"
    by (simp_all add: the_type_def eval_defs)
  have brk: "break_points demo_cfg 20 (the_type demo_env demo_cfg ?s) 0 ?ents = [False, False, True]"
    by (simp add: home ty line_break_before_def entry_width_def Let_def ENTRY_DELIM_def)
  have sel: "selected ?s = 1" and out: "stdout ?s = []"
    by (simp_all add: demo_state_def enter_raw_mode_def)
  from line_breaks_follow_column_accounting [OF run]
  have "stdout s' = stdout ?s @ entries_text demo_cfg (selected ?s) (the_type demo_env demo_cfg ?s) 0 ?ents
                                 (break_points demo_cfg 20 (the_type demo_env demo_cfg ?s) 0 ?ents)"
    and "nl' = 0 + int (length (filter id (break_points demo_cfg 20 (the_type demo_env demo_cfg ?s) 0 ?ents)))"
    by simp_all
  then have "nl' = 1" and "stdout s' = ESC # ''[34;1mBanana'' @ COLOR_RESET @ ''  '' @
                 COLOR_INVERT @ ''apple'' @ COLOR_RESET @ ''  '' @
                 [CHR 0x0A] @ ''cherry.txt'' @ COLOR_RESET @ ''  ''"
    unfolding brk sel out
    by (simp_all add: home ty entry_text_def ENTRY_DELIM_def)
  with run brk show ?thesis by blast
qed

text \<open>
  The rule of the claim fails on a name of 17 bytes in 20 columns: its rendered width is
  19 without indicators and 20 with them, neither exceeds 20, and yet the loop breaks the
  line before it, since 0 + 17 + 2 + 1 reaches 20.
\<close>

theorem spec_line_break_counterexample:
  "(\<exists>s' pc' nl'.
      display_entries demo_env demo_cfg 20 0 [\<lparr>d_name = ''seventeen_letters'', d_type = DT_DIR\<rparr>]
        (demo_state ''/home'' 0 ''Banana'' [], 0, 0) = Inr (s', pc', nl') \<and>
      nl' = 1 \<and> CHR 0x0A \<in> set (stdout s')) \<and>
   \<not> spec_line_break demo_cfg 20 0 \<lparr>d_name = ''seventeen_letters'', d_type = DT_DIR\<rparr> \<and>
   (\<exists>s' pc' nl'.
      display_entries demo_env (demo_cfg\<lparr>cfg_indicate := True\<rparr>) 20 0
        [\<lparr>d_name = ''seventeen_letters'', d_type = DT_DIR\<rparr>]
        (demo_state ''/home'' 0 ''Banana'' [], 0, 0) = Inr (s', pc', nl') \<and>
      nl' = 1 \<and> CHR 0x0A \<in> set (stdout s')) \<and>
   \<not> spec_line_break (demo_cfg\<lparr>cfg_indicate := True\<rparr>) 20 0 \<lparr>d_name = ''seventeen_letters'', d_type = DT_DIR\<rparr>"
  by (simp add: eval_defs spec_line_break_def rendered_width_def)

section \<open>C5: the order of the entries\<close>

lemma set_insert_sorted [simp]: "set (insert_sorted le x xs) = insert x (set xs)"
  by (induction xs) auto

lemma set_sort_with [simp]: "set (sort_with le xs) = set xs"
  by (induction xs) auto

lemma sorted_insert_sorted:
  assumes total: "\<forall>a b. le a b \<or> le b a"
    and trans: "\<forall>a b c. le a b \<and> le b c \<longrightarrow> le a c"
    and sorted: "sorted_wrt le xs"
  shows "sorted_wrt le (insert_sorted le x xs)"
  using sorted
proof (induction xs)
  case Nil
  then show ?case by simp
next
  case (Cons y ys)
  from Cons.prems have yz: "\<forall>z\<in>set ys. le y z" and s: "sorted_wrt le ys"
    by simp_all
  show ?case
  proof (cases "le x y")
    case True
    have "le x z" if "z \<in> set ys" for z
    proof -
      from yz that have "le y z" by blast
      with True trans show ?thesis by blast
    qed
    then show ?thesis
      using True yz s by simp
  next
    case False
    then have "le y x" using total by blast
    then show ?thesis
      using False yz Cons.IH [OF s] by simp
  qed
qed

lemma sorted_sort_with:
  assumes "\<forall>a b. le a b \<or> le b a" "\<forall>a b c. le a b \<and> le b c \<longrightarrow> le a c"
  shows "sorted_wrt le (sort_with le xs)"
proof (induction xs)
  case Nil
  then show ?case by simp
next
  case (Cons x xs)
  from sorted_insert_sorted [OF assms Cons.IH, of x] show ?case
    by simp
qed

lemma map_insert_sorted:
  "map f (insert_sorted (\<lambda>a b. le (f a) (f b)) x xs) = insert_sorted le (f x) (map f xs)"
  by (induction xs) auto

lemma map_sort_with:
  "map f (sort_with (\<lambda>a b. le (f a) (f b)) xs) = sort_with le (map f xs)"
  by (induction xs) (simp_all add: map_insert_sorted)

lemma names_of_filter:
  "map d_name (filter (display_filter cfg) xs) =
     filter (\<lambda>n. display_filter cfg \<lparr>d_name = n, d_type = 0\<rparr>) (map d_name xs)"
  by (induction xs) (simp_all add: display_filter_def)

lemma listing_names:
  assumes "e_scandir env dir = Some raw"
  shows "map d_name (listing env cfg dir) =
     sort_with (e_strcoll_le env) (filter (\<lambda>n. display_filter cfg \<lparr>d_name = n, d_type = 0\<rparr>) (map d_name raw))"
proof -
  have "alphasort env = (\<lambda>a b. e_strcoll_le env (d_name a) (d_name b))"
    by (intro ext) (simp add: alphasort_def)
  then show ?thesis
    using assms by (simp add: listing_def scandir_def map_sort_with names_of_filter)
qed

lemma strcmp_sym: "strcmp b a = - strcmp a b"
  by (induction a b rule: strcmp.induct) (auto simp: of_char_eq_iff)

lemma strcmp_trans:
  "strcmp a b \<le> 0 \<Longrightarrow> strcmp b c \<le> 0 \<Longrightarrow> strcmp a c \<le> 0"
proof (induction a b arbitrary: c rule: strcmp.induct)
  case 1
  then show ?case by simp
next
  case (2 b bs)
  then show ?case by (cases c) simp_all
next
  case (3 a as)
  then show ?case by simp
next
  case (4 a as b bs)
  show ?case
  proof (cases c)
    case Nil
    with "4.prems" show ?thesis by simp
  next
    case (Cons x xs)
    show ?thesis
    proof (cases "a = b")
      case True
      with "4.prems" "4.IH" [of xs] show ?thesis
        by (auto simp: Cons split: if_splits)
    next
      case False
      with "4.prems" have ab: "(of_char a :: nat) < of_char b"
        by (simp split: if_splits)
      from "4.prems" have "(of_char b :: nat) \<le> of_char x"
        by (auto simp: Cons split: if_splits)
      with ab show ?thesis
        by (auto simp: Cons)
    qed
  qed
qed

lemma bytewise_le_total: "bytewise_le a b \<or> bytewise_le b a"
  using strcmp_sym [of a b] by (auto simp: bytewise_le_def)

lemma bytewise_le_trans: "bytewise_le a b \<and> bytewise_le b c \<longrightarrow> bytewise_le a c"
  using strcmp_trans [of a b c] by (auto simp: bytewise_le_def)

lemma three_distinct:
  assumes "distinct ns" "set ns = {a, b, c}" "a \<noteq> b" "a \<noteq> c" "b \<noteq> c"
  shows "ns = [a, b, c] \<or> ns = [a, c, b] \<or> ns = [b, a, c] \<or> ns = [b, c, a] \<or> ns = [c, a, b] \<or> ns = [c, b, a]"
proof -
  have "length ns = 3"
    using assms distinct_card [of ns] by simp
  then obtain x y z where ns: "ns = [x, y, z]"
    by (auto simp: numeral_3_eq_3 length_Suc_conv)
  then have "x \<in> {a, b, c}" "y \<in> {a, b, c}" "z \<in> {a, b, c}"
    using assms(2) by auto
  then show ?thesis
    using assms(1) unfolding ns by auto
qed

lemma shown_names:
  assumes "distinct names" "set names = {''.'', ''..'', ''apple'', ''Banana'', ''cherry.txt''}"
  shows "distinct (filter (\<lambda>n. display_filter cfg \<lparr>d_name = n, d_type = 0\<rparr>) names)"
    and "set (filter (\<lambda>n. display_filter cfg \<lparr>d_name = n, d_type = 0\<rparr>) names)
           = {''apple'', ''Banana'', ''cherry.txt''}"
proof -
  let ?P = "\<lambda>n. display_filter cfg \<lparr>d_name = n, d_type = 0\<rparr>"
  show "distinct (filter ?P names)"
    using assms(1) by simp
  have "set (filter ?P names) = {n \<in> {''.'', ''..'', ''apple'', ''Banana'', ''cherry.txt''}. ?P n}"
    using assms(2) by simp
  also have "\<dots> = {''apple'', ''Banana'', ''cherry.txt''}"
  proof -
    have "\<not> ?P ''.''" "\<not> ?P ''..''" "?P ''apple''" "?P ''Banana''" "?P ''cherry.txt''"
      by (simp_all add: display_filter_def)
    then show ?thesis by blast
  qed
  finally show "set (filter ?P names) = {''apple'', ''Banana'', ''cherry.txt''}" .
qed

lemma bytewise_three:
  assumes "ns = [''apple'', ''Banana'', ''cherry.txt''] \<or> ns = [''apple'', ''cherry.txt'', ''Banana''] \<or>
     ns = [''Banana'', ''apple'', ''cherry.txt''] \<or> ns = [''Banana'', ''cherry.txt'', ''apple''] \<or>
     ns = [''cherry.txt'', ''apple'', ''Banana''] \<or> ns = [''cherry.txt'', ''Banana'', ''apple'']"
  shows "sort_with bytewise_le ns = [''Banana'', ''apple'', ''cherry.txt'']"
  using assms by (elim disjE) (simp_all add: bytewise_le_def)

text \<open>
  C5, as amended. The list that is displayed is sorted by the collation of the locale
  (for a collation that is total and transitive), and holds the entries that pass the
  filter. For a directory that holds \<^verbatim>\<open>apple\<close>, \<^verbatim>\<open>Banana\<close> and \<^verbatim>\<open>cherry.txt\<close>, in whatever order
  \<^verbatim>\<open>readdir\<close> delivers them, a byte-wise collation gives the order \<^verbatim>\<open>Banana\<close>, \<^verbatim>\<open>apple\<close>,
  \<^verbatim>\<open>cherry.txt\<close>, with or without \<^verbatim>\<open>-a\<close>.
\<close>

theorem display_order_follows_collation:
  assumes "e_scandir env dir = Some raw"
  shows "((\<forall>a b. e_strcoll_le env a b \<or> e_strcoll_le env b a) \<and>
          (\<forall>a b c. e_strcoll_le env a b \<and> e_strcoll_le env b c \<longrightarrow> e_strcoll_le env a c)
            \<longrightarrow> sorted_wrt (\<lambda>a b. e_strcoll_le env (d_name a) (d_name b)) (listing env cfg dir) \<and>
                set (listing env cfg dir) = {e \<in> set raw. display_filter cfg e}) \<and>
         (distinct (map d_name raw) \<and>
          set (map d_name raw) = {''.'', ''..'', ''apple'', ''Banana'', ''cherry.txt''} \<and>
          e_strcoll_le env = bytewise_le
            \<longrightarrow> map d_name (listing env cfg dir) = [''Banana'', ''apple'', ''cherry.txt''])"
proof (intro conjI impI)
  assume a: "(\<forall>a b. e_strcoll_le env a b \<or> e_strcoll_le env b a) \<and>
          (\<forall>a b c. e_strcoll_le env a b \<and> e_strcoll_le env b c \<longrightarrow> e_strcoll_le env a c)"
  have l: "listing env cfg dir = sort_with (\<lambda>a b. e_strcoll_le env (d_name a) (d_name b)) (filter (display_filter cfg) raw)"
    using assms by (simp add: listing_def scandir_def alphasort_def [abs_def])
  show "sorted_wrt (\<lambda>a b. e_strcoll_le env (d_name a) (d_name b)) (listing env cfg dir)"
    unfolding l using a by (intro sorted_sort_with) blast+
  show "set (listing env cfg dir) = {e \<in> set raw. display_filter cfg e}"
    unfolding l by auto
next
  assume a: "distinct (map d_name raw) \<and>
          set (map d_name raw) = {''.'', ''..'', ''apple'', ''Banana'', ''cherry.txt''} \<and>
          e_strcoll_le env = bytewise_le"
  let ?ns = "filter (\<lambda>n. display_filter cfg \<lparr>d_name = n, d_type = 0\<rparr>) (map d_name raw)"
  from a have "distinct ?ns" and "set ?ns = {''apple'', ''Banana'', ''cherry.txt''}"
    using shown_names [of "map d_name raw" cfg] by blast+
  then have "?ns = [''apple'', ''Banana'', ''cherry.txt''] \<or> ?ns = [''apple'', ''cherry.txt'', ''Banana''] \<or>
     ?ns = [''Banana'', ''apple'', ''cherry.txt''] \<or> ?ns = [''Banana'', ''cherry.txt'', ''apple''] \<or>
     ?ns = [''cherry.txt'', ''apple'', ''Banana''] \<or> ?ns = [''cherry.txt'', ''Banana'', ''apple'']"
    by (intro three_distinct) simp_all
  then have "sort_with bytewise_le ?ns = [''Banana'', ''apple'', ''cherry.txt'']"
    by (rule bytewise_three)
  then show "map d_name (listing env cfg dir) = [''Banana'', ''apple'', ''cherry.txt'']"
    using a by (simp add: listing_names [OF assms])
qed

theorem display_order_follows_collation_witness:
  "sorted_wrt (\<lambda>a b. bytewise_le (d_name a) (d_name b)) (listing demo_env demo_cfg ''/home'') \<and>
   set (listing demo_env demo_cfg ''/home'') =
     set [\<lparr>d_name = ''cherry.txt'', d_type = DT_REG\<rparr>, \<lparr>d_name = ''apple'', d_type = DT_REG\<rparr>,
          \<lparr>d_name = ''Banana'', d_type = DT_DIR\<rparr>] \<and>
   map d_name (listing demo_env demo_cfg ''/home'') = [''Banana'', ''apple'', ''cherry.txt'']"
proof -
  let ?raw = "[\<lparr>d_name = ''cherry.txt'', d_type = DT_REG\<rparr>, \<lparr>d_name = ''.'', d_type = DT_DIR\<rparr>,
              \<lparr>d_name = ''apple'', d_type = DT_REG\<rparr>, \<lparr>d_name = ''..'', d_type = DT_DIR\<rparr>,
              \<lparr>d_name = ''Banana'', d_type = DT_DIR\<rparr>]"
  have raw: "e_scandir demo_env ''/home'' = Some ?raw"
    by (simp add: demo_env_def demo_listing_def)
  have coll: "e_strcoll_le demo_env = bytewise_le"
    by (simp add: demo_env_def)
  have total: "\<forall>a b. e_strcoll_le demo_env a b \<or> e_strcoll_le demo_env b a"
    unfolding coll using bytewise_le_total by blast
  have trans: "\<forall>a b c. e_strcoll_le demo_env a b \<and> e_strcoll_le demo_env b c \<longrightarrow> e_strcoll_le demo_env a c"
    unfolding coll using bytewise_le_trans by blast
  have names: "distinct (map d_name ?raw)"
    "set (map d_name ?raw) = {''.'', ''..'', ''apple'', ''Banana'', ''cherry.txt''}"
    by (simp_all add: insert_commute)
  have shown: "{e \<in> set ?raw. display_filter demo_cfg e} =
     set [\<lparr>d_name = ''cherry.txt'', d_type = DT_REG\<rparr>, \<lparr>d_name = ''apple'', d_type = DT_REG\<rparr>,
          \<lparr>d_name = ''Banana'', d_type = DT_DIR\<rparr>]"
    unfolding set_filter [symmetric] by (simp add: display_filter_def)
  note inst = display_order_follows_collation [OF raw, of demo_cfg]
  from inst total trans
  have "sorted_wrt (\<lambda>a b. e_strcoll_le demo_env (d_name a) (d_name b)) (listing demo_env demo_cfg ''/home'')"
    and "set (listing demo_env demo_cfg ''/home'') = {e \<in> set ?raw. display_filter demo_cfg e}"
    by (meson)+
  moreover from inst names coll
  have "map d_name (listing demo_env demo_cfg ''/home'') = [''Banana'', ''apple'', ''cherry.txt'']"
    by (meson)
  ultimately show ?thesis
    unfolding coll shown by simp
qed

text \<open>
  Under a collation that compares letters without regard to case, the same directory is
  displayed in the order \<^verbatim>\<open>apple\<close>, \<^verbatim>\<open>Banana\<close>, \<^verbatim>\<open>cherry.txt\<close>: the order is that of the locale,
  not of the bytes.
\<close>

theorem bytewise_order_counterexample:
  "map d_name (listing (demo_env\<lparr>e_strcoll_le := caseless_le\<rparr>) demo_cfg ''/home'')
     = [''apple'', ''Banana'', ''cherry.txt''] \<and>
   map d_name (listing (demo_env\<lparr>e_strcoll_le := caseless_le\<rparr>) demo_cfg ''/home'')
     \<noteq> [''Banana'', ''apple'', ''cherry.txt'']"
  by (simp add: eval_defs caseless_le_def to_lower_def)

section \<open>The concrete session, evaluated\<close>

lemma demo_state_fields [simp]:
  "d_current_name (demo_state dir sel name inp) = Some dir"
  "d_current_len (demo_state dir sel name inp) = int (length dir)"
  "selected (demo_state dir sel name inp) = sel"
  "selected_name (demo_state dir sel name inp) = name"
  "stdin (demo_state dir sel name inp) = inp"
  "stdout (demo_state dir sel name inp) = []"
  "stderr (demo_state dir sel name inp) = []"
  "atexit_restore (demo_state dir sel name inp) = True"
  "last_overflow_count (demo_state dir sel name inp) = 0"
  "tcattr_old (demo_state dir sel name inp) = demo_termios"
  by (simp_all add: demo_state_def enter_raw_mode_def)


lemma demo_banana: "scandir demo_env demo_cfg ''/home/Banana'' = Some []"
  by (simp add: eval_defs)

lemma demo_busy: "scandir demo_env demo_cfg ''/busy'' = None"
  by (simp add: eval_defs)

section \<open>C9: the selected name after the render of an empty directory\<close>

lemma redo_select:
  assumes "k \<in> set select_keys"
  shows "redo env cfg s (k @ rest) = cd env cfg (s\<lparr>stdin := rest\<rparr>) (selected_name s)"
  using assms by (auto simp: select_keys_def ord_def key_switch_def escape_key_def arrow_key_def)

text \<open>
  C9. The render of a directory whose filtered list is empty leaves \<open>selected_name\<close> as
  it was, and a following \<^verbatim>\<open>J\<close>, \<^verbatim>\<open>j\<close>, Enter or Down calls \<^verbatim>\<open>cd\<close> with that name.
\<close>

theorem empty_directory_keeps_selected_name:
  assumes dir: "d_current_name s = Some dir"
    and empty: "scandir env cfg dir = Some []"
    and run: "display env cfg s = Inr s'"
  shows "selected_name s' = selected_name s \<and>
         (\<forall>k \<in> set select_keys. \<forall>rest env1.
            redo env1 cfg s' (k @ rest) = cd env1 cfg (s'\<lparr>stdin := rest\<rparr>) (selected_name s))"
proof -
  have "selected_name s' = selected_name s"
    using display_Some(3) [OF dir empty run] by simp
  then show ?thesis
    using redo_select [of _ _ cfg s'] by simp
qed

theorem empty_directory_keeps_selected_name_witness:
  "\<exists>s1 s2. main_round demo_env demo_cfg
              (demo_state ''/home'' 0 ''Banana'' (map ord ''j'' @ cursor_reply ''5;1'' @ cursor_reply ''5;12'' @ map ord ''j''))
            = Inr s1 \<and>
          d_current_name s1 = Some ''/home/Banana'' \<and> d_length s1 = 0 \<and> selected_name s1 = ''Banana'' \<and>
          redo demo_env demo_cfg s1 (stdin s1) = Inr s2 \<and>
          d_current_name s2 = Some ''/home/Banana/Banana''"
proof -
  let ?s = "demo_state ''/home'' 0 ''Banana'' (map ord ''j'' @ cursor_reply ''5;1'' @ cursor_reply ''5;12'' @ map ord ''j'')"
  let ?rest = "cursor_reply ''5;1'' @ cursor_reply ''5;12'' @ map ord ''j''"
  let ?c = "(demo_state ''/home/Banana'' 0 ''Banana'' ?rest)\<lparr>d_length := 0\<rparr>"
  have c: "redo demo_env demo_cfg ?s (stdin ?s) = Inr ?c"
    by (simp add: eval_defs)
  have cdir: "d_current_name ?c = Some ''/home/Banana''" and cname: "selected_name ?c = ''Banana''"
    by simp_all
  obtain s1 where s1: "display demo_env demo_cfg ?c = Inr s1" and len: "d_length s1 = 0"
    and dir1: "d_current_name s1 = Some ''/home/Banana''" and in1: "stdin s1 = map ord ''j''"
    and l1: "d_current_len s1 = 12"
    by (simp add: eval_defs)
  have round: "main_round demo_env demo_cfg ?s = Inr s1"
    using c s1 by (simp add: main_round_def)
  from empty_directory_keeps_selected_name [OF cdir demo_banana s1]
  have name1: "selected_name s1 = ''Banana''"
    and key: "redo demo_env demo_cfg s1 (map ord ''j'' @ []) = cd demo_env demo_cfg (s1\<lparr>stdin := []\<rparr>) ''Banana''"
    by (simp_all add: cname select_keys_def ord_def)
  obtain s2 where s2: "cd demo_env demo_cfg (s1\<lparr>stdin := []\<rparr>) ''Banana'' = Inr s2"
    and dir2: "d_current_name s2 = Some ''/home/Banana/Banana''"
    by (simp add: cd_def append_to_cd_def dir1 l1 Let_def PATH_MAX_def demo_env_def)
  show ?thesis
    using round dir1 len name1 key s2 dir2 in1 by simp
qed

section \<open>C6: changing directory\<close>

lemma append_to_cd_Inr:
  "(\<exists>p. append_to_cd env cfg s suffix = Inr p) =
     (d_current_len s + int (length suffix) + 2 \<le> PATH_MAX \<and> \<not> e_malloc_null env \<and> d_current_name s \<noteq> None)"
  by (auto simp: append_to_cd_def Let_def split: option.splits)







section \<open>C10: the escape key\<close>

text \<open>
  C10. After an escape, any value of \<^verbatim>\<open>getchar\<close> other than \<^verbatim>\<open>[\<close> (a byte, or \<^verbatim>\<open>EOF\<close> for no
  byte) ends the round with \<^verbatim>\<open>exit(0)\<close>. After escape and \<^verbatim>\<open>[\<close>, a third value that is none
  of \<^verbatim>\<open>A\<close>, \<^verbatim>\<open>B\<close>, \<^verbatim>\<open>C\<close>, \<^verbatim>\<open>D\<close> is read and changes nothing but the input, and the round goes
  on to \<^verbatim>\<open>display\<close>.
\<close>

theorem escape_sequences:
  "(g2 \<noteq> ord (CHR ''['') \<longrightarrow>
      main_round env cfg (s\<lparr>stdin := 0x1B # g2 # rest\<rparr>) = Inl (exit_with cfg (s\<lparr>stdin := rest\<rparr>) 0) \<and>
      fst (exit_with cfg (s\<lparr>stdin := rest\<rparr>) 0) = Exit 0) \<and>
   (g3 \<noteq> ord (CHR ''A'') \<and> g3 \<noteq> ord (CHR ''B'') \<and> g3 \<noteq> ord (CHR ''C'') \<and> g3 \<noteq> ord (CHR ''D'') \<longrightarrow>
      redo env cfg s (0x1B # ord (CHR ''['') # g3 # rest) = Inr (s\<lparr>stdin := rest\<rparr>) \<and>
      main_round env cfg (s\<lparr>stdin := 0x1B # ord (CHR ''['') # g3 # rest\<rparr>) = display env cfg (s\<lparr>stdin := rest\<rparr>))"
  by (simp add: main_round_def key_switch_def escape_key_def arrow_key_def exit_with_def ord_def)

theorem escape_sequences_witness:
  "(\<exists>s'. main_round demo_env demo_cfg (demo_state ''/home'' 1 ''apple'' [0x1B, ord (CHR ''x'')])
           = Inl (Exit 0, s') \<and> tty_attr s' = demo_termios) \<and>
   (\<exists>s'. main_round demo_env demo_cfg (demo_state ''/home'' 1 ''apple'' [0x1B, - 1])
           = Inl (Exit 0, s')) \<and>
   (\<exists>s'. main_round demo_env demo_cfg
            (demo_state ''/home'' 1 ''apple''
               (0x1B # ord (CHR ''['') # ord (CHR ''H'') # cursor_reply ''5;1'' @ cursor_reply ''5;30''))
           = Inr s' \<and> selected s' = 1 \<and> d_current_name s' = Some ''/home'')"
proof (intro conjI)
  let ?s = "demo_state ''/home'' 1 ''apple'' []"
  let ?q = "cursor_reply ''5;1'' @ cursor_reply ''5;30''"
  have st: "\<And>inp. demo_state ''/home'' 1 ''apple'' inp = ?s\<lparr>stdin := inp\<rparr>"
    by (simp add: demo_state_def enter_raw_mode_def)
  have ex: "exit_with demo_cfg ?s 0 = (Exit 0, restore_tcattr demo_cfg ?s)"
    by (simp add: exit_with_def)
  have old: "tty_attr (restore_tcattr demo_cfg ?s) = demo_termios"
    by simp
  have x: "main_round demo_env demo_cfg (?s\<lparr>stdin := [0x1B, ord (CHR ''x'')]\<rparr>)
             = Inl (exit_with demo_cfg (?s\<lparr>stdin := []\<rparr>) 0)"
    using escape_sequences [where ?g2.0 = "ord (CHR ''x'')" and env = demo_env and cfg = demo_cfg
        and s = ?s and rest = "[]"]
    by (simp add: ord_def)
  have eof: "main_round demo_env demo_cfg (?s\<lparr>stdin := [0x1B, - 1]\<rparr>)
             = Inl (exit_with demo_cfg (?s\<lparr>stdin := []\<rparr>) 0)"
    using escape_sequences [where ?g2.0 = "- 1" and env = demo_env and cfg = demo_cfg
        and s = ?s and rest = "[]"]
    by (simp add: ord_def)
  have h: "main_round demo_env demo_cfg (?s\<lparr>stdin := 0x1B # ord (CHR ''['') # ord (CHR ''H'') # ?q\<rparr>)
           = display demo_env demo_cfg (?s\<lparr>stdin := ?q\<rparr>)"
    using escape_sequences [where ?g3.0 = "ord (CHR ''H'')" and env = demo_env and cfg = demo_cfg
        and s = ?s and rest = ?q]
    by (simp add: ord_def)
  have same: "?s\<lparr>stdin := []\<rparr> = ?s"
    by (simp add: demo_state_def enter_raw_mode_def)
  show "\<exists>s'. main_round demo_env demo_cfg (demo_state ''/home'' 1 ''apple'' [0x1B, ord (CHR ''x'')])
           = Inl (Exit 0, s') \<and> tty_attr s' = demo_termios"
    unfolding st [of "[0x1B, ord (CHR ''x'')]"] x same ex using old by blast
  show "\<exists>s'. main_round demo_env demo_cfg (demo_state ''/home'' 1 ''apple'' [0x1B, - 1])
           = Inl (Exit 0, s')"
    unfolding st [of "[0x1B, - 1]"] eof same ex by blast
  have "\<exists>s'. display demo_env demo_cfg (demo_state ''/home'' 1 ''apple'' ?q) = Inr s' \<and>
     selected s' = 1 \<and> d_current_name s' = Some ''/home''"
    by (simp add: eval_defs)
  then show "\<exists>s'. main_round demo_env demo_cfg
            (demo_state ''/home'' 1 ''apple''
               (0x1B # ord (CHR ''['') # ord (CHR ''H'') # cursor_reply ''5;1'' @ cursor_reply ''5;30''))
           = Inr s' \<and> selected s' = 1 \<and> d_current_name s' = Some ''/home''"
    unfolding st [of "0x1B # ord (CHR ''['') # ord (CHR ''H'') # ?q"] h st [of ?q] .
qed

section \<open>C7: the selected name after a render\<close>

lemma CHECKBAD_selected_name [simp]:
  "selected_name (snd (CHECKBAD cfg s err msg)) = selected_name s"
  by (simp add: CHECKBAD_def exit_with_def)







section \<open>C8: restoration on every exit\<close>






lemma restored_exit_other [simp]:
  "restored_exit cfg s0 (Killed, s)" "restored_exit cfg s0 (Starved, s)" "restored_exit cfg s0 (Exec p a, s)"
  "restored_exit cfg s0 (Undefined, s)"
  by (simp_all add: restored_exit_def)





























end
